theory Spec2Isabelle
  imports
    Main
    "HOL-Library.FSet"
    "HOL-Library.AList"
    "HOL-Library.Char_ord"
    "HOL-Library.List_Lexorder"
begin

section \<open>Python values shared by the modules\<close>

text \<open>
  The exceptions the modelled code raises. A function that can raise returns
  \<open>error + 'a\<close>, with \<open>Inl\<close> for the exception. The argument of
  \<open>ValueError\<close> is the message, shortened where Python would quote the
  offending text.
\<close>

datatype error =
    ValueError string
  | TypeError
  | AttributeError
  | KeyError
  | AssertionError
  | PostgresError

text \<open>
  Primary-key identifiers are \<open>Union[int, str]\<close> in the source; \<open>py_str\<close>
  is Python's \<open>str\<close> on them.
\<close>

datatype pk = PkInt int | PkStr string

definition digit_char :: "nat \<Rightarrow> char" where
  "digit_char n = ''0123456789'' ! (n mod 10)"

function str_nat :: "nat \<Rightarrow> string" where
  "str_nat n = (if n < 10 then [digit_char n] else str_nat (n div 10) @ [digit_char n])"
  by pat_completeness auto
termination
  by (relation "measure id") auto

declare str_nat.simps [simp del]

definition str_int :: "int \<Rightarrow> string" where
  "str_int i = (if i < 0 then CHR ''-'' # str_nat (nat (- i)) else str_nat (nat i))"

fun py_str :: "pk \<Rightarrow> string" where
  "py_str (PkInt i) = str_int i"
| "py_str (PkStr s) = s"

text \<open>
  A generator yields a sequence of items and then either ends or raises: the
  pair of the items yielded and the exception that ended the iteration, if any.
\<close>

type_synonym 'a generator = "'a list \<times> error option"

section \<open>helpers.py\<close>

text \<open>
  \<open>make_chunks(iterable, size)\<close> takes a first item and then
  \<open>islice(iterator, size - 1)\<close>; \<open>islice\<close> raises \<open>ValueError\<close> on a
  negative stop, so a size below 1 raises at the first chunk of a non-empty
  iterable, and an empty iterable yields nothing whatever the size.
\<close>

function make_chunks :: "'a list \<Rightarrow> int \<Rightarrow> 'a list generator" where
  "make_chunks xs chunk_size =
     (if xs = [] then ([], None)
      else if chunk_size - 1 < 0 then ([], Some (ValueError ''islice''))
      else (case make_chunks (drop (nat chunk_size) xs) chunk_size of
              (chunks, e) \<Rightarrow> (take (nat chunk_size) xs # chunks, e)))"
  by pat_completeness auto
termination
  by (relation "measure (\<lambda>(xs, chunk_size). length xs)") auto

declare make_chunks.simps [simp del]

section \<open>settings\_helpers.py\<close>

text \<open>
  The process environment is a map from variable names to values. Strings are
  byte strings here, so the whitespace \<open>str.strip\<close> and \<open>int\<close> remove is
  the ASCII part of Python's: codes 9 to 13, 28 to 31 and 32.
\<close>

type_synonym environ = "string \<rightharpoonup> string"

definition isspace :: "char \<Rightarrow> bool" where
  "isspace c = (let n = (of_char c :: nat) in (9 \<le> n \<and> n \<le> 13) \<or> (28 \<le> n \<and> n \<le> 32))"

definition strip :: "string \<Rightarrow> string" where
  "strip s = rev (dropWhile isspace (rev (dropWhile isspace s)))"

definition isdigit :: "char \<Rightarrow> bool" where
  "isdigit c = (let n = (of_char c :: nat) in 48 \<le> n \<and> n \<le> 57)"

definition lower_char :: "char \<Rightarrow> char" where
  "lower_char c = (let n = (of_char c :: nat) in if 65 \<le> n \<and> n \<le> 90 then char_of (n + 32) else c)"

definition lower :: "string \<Rightarrow> string" where
  "lower s = map lower_char s"

text \<open>\<open>s.split(separator)\<close> for a separator of one character, as every caller passes.\<close>

fun split :: "char \<Rightarrow> string \<Rightarrow> string list" where
  "split sep [] = [[]]"
| "split sep (c # cs) =
     (if c = sep then [] # split sep cs
      else (case split sep cs of [] \<Rightarrow> [[c]] | w # ws \<Rightarrow> (c # w) # ws))"

text \<open>
  \<open>int(s)\<close> in base 10: surrounding whitespace is dropped, one sign is allowed,
  and the digits may be grouped by single underscores. Anything else raises
  \<open>ValueError\<close>.
\<close>

fun digits_ok :: "string \<Rightarrow> bool" where
  "digits_ok [] = False"
| "digits_ok [c] = isdigit c"
| "digits_ok (c # d # cs) =
     (isdigit c \<and> (if d = CHR ''_'' then cs \<noteq> [] \<and> digits_ok cs else digits_ok (d # cs)))"

definition digits_value :: "string \<Rightarrow> int" where
  "digits_value ds =
     foldl (\<lambda>acc c. 10 * acc + (int (of_char c) - 48)) 0 (filter (\<lambda>c. c \<noteq> CHR ''_'') ds)"

definition py_int :: "string \<Rightarrow> error + int" where
  "py_int s =
     (case strip s of
        [] \<Rightarrow> Inl (ValueError ''invalid literal for int()'')
      | c # cs \<Rightarrow>
          (let ds = (if c = CHR ''-'' \<or> c = CHR ''+'' then cs else c # cs)
           in if digits_ok ds
              then Inr (if c = CHR ''-'' then - digits_value ds else digits_value ds)
              else Inl (ValueError ''invalid literal for int()'')))"

text \<open>\<open>type_=str\<close>: the identity, which cannot fail.\<close>

definition py_type_str :: "string \<Rightarrow> error + string" where
  "py_type_str s = Inr s"

text \<open>\<open>distutils.util.strtobool\<close>.\<close>

definition strtobool :: "string \<Rightarrow> error + bool" where
  "strtobool val =
     (let v = lower val
      in if v \<in> set [''y'', ''yes'', ''t'', ''true'', ''on'', ''1''] then Inr True
         else if v \<in> set [''n'', ''no'', ''f'', ''false'', ''off'', ''0''] then Inr False
         else Inl (ValueError ''invalid truth value''))"

text \<open>Sequencing of calls that may raise: the first exception ends the evaluation.\<close>

definition try_bind :: "error + 'a \<Rightarrow> ('a \<Rightarrow> error + 'b) \<Rightarrow> error + 'b" where
  "try_bind m f = (case m of Inl e \<Rightarrow> Inl e | Inr x \<Rightarrow> f x)"

fun try_map :: "('a \<Rightarrow> error + 'b) \<Rightarrow> 'a list \<Rightarrow> error + 'b list" where
  "try_map f [] = Inr []"
| "try_map f (x # xs) =
     try_bind (f x) (\<lambda>y. try_bind (try_map f xs) (\<lambda>ys. Inr (y # ys)))"

definition get_str_environ_parameter :: "environ \<Rightarrow> string \<Rightarrow> string \<Rightarrow> string" where
  "get_str_environ_parameter env name dflt =
     strip (case env name of None \<Rightarrow> dflt | Some v \<Rightarrow> v)"

definition get_int_environ_parameter :: "environ \<Rightarrow> string \<Rightarrow> int \<Rightarrow> error + int" where
  "get_int_environ_parameter env name dflt =
     (case env name of None \<Rightarrow> Inr dflt | Some v \<Rightarrow> py_int v)"

definition get_bool_environ_parameter :: "environ \<Rightarrow> string \<Rightarrow> bool \<Rightarrow> error + bool" where
  "get_bool_environ_parameter env name dflt =
     (case env name of
        None \<Rightarrow> Inr dflt
      | Some v \<Rightarrow> if v \<noteq> [] then strtobool v else Inr dflt)"

definition get_iterable_environ_parameter ::
  "environ \<Rightarrow> string \<Rightarrow> char \<Rightarrow> (string \<Rightarrow> error + 'a) \<Rightarrow> error + 'a list" where
  "get_iterable_environ_parameter env name separator typ =
     try_map typ
       (filter (\<lambda>s. s \<noteq> [])
          (split separator
             (filter (\<lambda>c. c \<noteq> CHR '' '') (case env name of None \<Rightarrow> [] | Some v \<Rightarrow> v))))"

text \<open>The list-valued variant has the same body; only the container differs.\<close>

definition get_extensible_iterable_environ_parameter ::
  "environ \<Rightarrow> string \<Rightarrow> char \<Rightarrow> (string \<Rightarrow> error + 'a) \<Rightarrow> error + 'a list" where
  "get_extensible_iterable_environ_parameter env name separator typ =
     get_iterable_environ_parameter env name separator typ"

section \<open>settings.py\<close>

record settings =
  LOG_LEVEL :: string
  LOG_DIRECTORY :: string
  LOG_FILENAME :: string
  SRC_DB_HOST :: string
  SRC_DB_PORT :: string
  SRC_DB_SCHEMA :: string
  SRC_DB_NAME :: string
  SRC_DB_USER :: string
  SRC_DB_PASSWORD :: string
  DST_DB_HOST :: string
  DST_DB_PORT :: string
  DST_DB_SCHEMA :: string
  DST_DB_NAME :: string
  DST_DB_USER :: string
  DST_DB_PASSWORD :: string
  TEST_MODE :: bool
  KEY_TABLE_NAME :: string
  KEY_COLUMN_NAMES :: "string list"
  KEY_COLUMN_VALUES :: "int list"
  KEY_TABLE_HIERARCHY_COLUMN_NAME :: string
  EXCLUDED_TABLES :: "string list"
  TABLES_WITH_GENERIC_FOREIGN_KEY :: "string list"
  TABLES_LIMIT_PER_TRANSACTION :: int
  IS_TRUNCATE_TABLES :: bool
  TABLES_TRUNCATE_INCLUDED :: "string list"
  TABLES_TRUNCATE_EXCLUDED :: "string list"
  FULL_TRANSFER_TABLES :: "string list"
  VALIDATE_DATA_BEFORE_TRANSFERRING :: bool
  USE_DATABASE_FOR_STORE_INTERMEDIATE_VALUES :: bool
  COLLECTOR_CHUNK_SIZE :: int
  ASYNC_SEPARATION_COEFFICIENT :: int

text \<open>
  Modelled from the spec: \<open>LogLevelEnum.INFO\<close> of core/enums.py, which is not
  among the sources; the default of \<open>LOG_LEVEL\<close>.
\<close>

definition LogLevelEnum_INFO :: string where
  "LogLevelEnum_INFO = ''INFO''"

text \<open>Python's \<open>any\<close> over the truth values of the listed settings.\<close>

definition any :: "bool list \<Rightarrow> bool" where
  "any bs = (True \<in> set bs)"

text \<open>
  Importing the module evaluates the assignments from top to bottom; the
  required-parameter check sits between \<open>FULL_TRANSFER_TABLES\<close> and
  \<open>VALIDATE_DATA_BEFORE_TRANSFERRING\<close>. The result is the module's namespace,
  or the exception that aborted the import.
\<close>

definition load_settings :: "environ \<Rightarrow> error + settings" where
  "load_settings env =
    (let log_level = get_str_environ_parameter env ''DATABASER_LOG_LEVEL'' LogLevelEnum_INFO;
         log_directory = get_str_environ_parameter env ''DATABASER_LOG_DIRECTORY'' [];
         log_filename = get_str_environ_parameter env ''DATABASER_LOG_FILENAME'' [];
         src_db_host = get_str_environ_parameter env ''DATABASER_SRC_DB_HOST'' [];
         src_db_port = get_str_environ_parameter env ''DATABASER_SRC_DB_PORT'' [];
         src_db_schema = get_str_environ_parameter env ''DATABASER_SRC_DB_SCHEMA'' ''public'';
         src_db_name = get_str_environ_parameter env ''DATABASER_SRC_DB_NAME'' [];
         src_db_user = get_str_environ_parameter env ''DATABASER_SRC_DB_USER'' [];
         src_db_password = get_str_environ_parameter env ''DATABASER_SRC_DB_PASSWORD'' [];
         dst_db_host = get_str_environ_parameter env ''DATABASER_DST_DB_HOST'' [];
         dst_db_port = get_str_environ_parameter env ''DATABASER_DST_DB_PORT'' [];
         dst_db_schema = get_str_environ_parameter env ''DATABASER_DST_DB_SCHEMA'' ''public'';
         dst_db_name = get_str_environ_parameter env ''DATABASER_DST_DB_NAME'' [];
         dst_db_user = get_str_environ_parameter env ''DATABASER_DST_DB_USER'' [];
         dst_db_password = get_str_environ_parameter env ''DATABASER_DST_DB_PASSWORD'' []
     in
     try_bind (get_bool_environ_parameter env ''DATABASER_TEST_MODE'' False) (\<lambda>test_mode.
     let key_table_name = get_str_environ_parameter env ''DATABASER_KEY_TABLE_NAME'' [] in
     try_bind (get_iterable_environ_parameter env ''DATABASER_KEY_COLUMN_NAMES'' CHR '','' py_type_str)
       (\<lambda>key_column_names.
     try_bind (get_iterable_environ_parameter env ''DATABASER_KEY_COLUMN_VALUES'' CHR '','' py_int)
       (\<lambda>key_column_values.
     let key_table_hierarchy_column_name =
           get_str_environ_parameter env ''DATABASER_KEY_TABLE_HIERARCHY_COLUMN_NAME'' [] in
     try_bind (get_extensible_iterable_environ_parameter env ''DATABASER_EXCLUDED_TABLES'' CHR '','' py_type_str)
       (\<lambda>excluded_tables.
     try_bind (get_iterable_environ_parameter env ''DATABASER_TABLES_WITH_GENERIC_FOREIGN_KEY'' CHR '','' py_type_str)
       (\<lambda>tables_with_generic_foreign_key.
     try_bind (get_int_environ_parameter env ''DATABASER_TABLES_LIMIT_PER_TRANSACTION'' 100)
       (\<lambda>tables_limit_per_transaction.
     try_bind (get_bool_environ_parameter env ''DATABASER_IS_TRUNCATE_TABLES'' False)
       (\<lambda>is_truncate_tables.
     try_bind (get_iterable_environ_parameter env ''DATABASER_TABLES_TRUNCATE_INCLUDED'' CHR '','' py_type_str)
       (\<lambda>tables_truncate_included.
     try_bind (get_iterable_environ_parameter env ''DATABASER_TABLES_TRUNCATE_EXCLUDED'' CHR '','' py_type_str)
       (\<lambda>tables_truncate_excluded.
     try_bind (get_iterable_environ_parameter env ''DATABASER_FULL_TRANSFER_TABLES'' CHR '','' py_type_str)
       (\<lambda>full_transfer_tables.
     if \<not> any
          [src_db_host \<noteq> [], src_db_port \<noteq> [], src_db_name \<noteq> [], src_db_user \<noteq> [],
           src_db_password \<noteq> [], dst_db_host \<noteq> [], dst_db_port \<noteq> [], dst_db_name \<noteq> [],
           dst_db_user \<noteq> [], dst_db_password \<noteq> [], key_table_name \<noteq> [],
           key_column_names \<noteq> [], key_column_values \<noteq> []]
     then Inl (ValueError ''You must send all params!'')
     else
     try_bind (get_bool_environ_parameter env ''VALIDATE_DATA_BEFORE_TRANSFERRING'' False)
       (\<lambda>validate_data_before_transferring.
     try_bind (get_bool_environ_parameter env ''DATABASER_USE_DATABASE_FOR_STORE_INTERMEDIATE_VALUES'' False)
       (\<lambda>use_database_for_store_intermediate_values.
     try_bind (get_int_environ_parameter env ''DATABASER_COLLECTOR_CHUNK_SIZE'' 60000)
       (\<lambda>collector_chunk_size.
     try_bind (get_int_environ_parameter env ''DATABASER_ASYNC_SEPARATION_COEFFICIENT'' (- 1))
       (\<lambda>async_separation_coefficient.
     Inr \<lparr> LOG_LEVEL = log_level, LOG_DIRECTORY = log_directory, LOG_FILENAME = log_filename,
           SRC_DB_HOST = src_db_host, SRC_DB_PORT = src_db_port, SRC_DB_SCHEMA = src_db_schema,
           SRC_DB_NAME = src_db_name, SRC_DB_USER = src_db_user,
           SRC_DB_PASSWORD = src_db_password,
           DST_DB_HOST = dst_db_host, DST_DB_PORT = dst_db_port, DST_DB_SCHEMA = dst_db_schema,
           DST_DB_NAME = dst_db_name, DST_DB_USER = dst_db_user,
           DST_DB_PASSWORD = dst_db_password,
           TEST_MODE = test_mode, KEY_TABLE_NAME = key_table_name,
           KEY_COLUMN_NAMES = key_column_names, KEY_COLUMN_VALUES = key_column_values,
           KEY_TABLE_HIERARCHY_COLUMN_NAME = key_table_hierarchy_column_name,
           EXCLUDED_TABLES = excluded_tables,
           TABLES_WITH_GENERIC_FOREIGN_KEY = tables_with_generic_foreign_key,
           TABLES_LIMIT_PER_TRANSACTION = tables_limit_per_transaction,
           IS_TRUNCATE_TABLES = is_truncate_tables,
           TABLES_TRUNCATE_INCLUDED = tables_truncate_included,
           TABLES_TRUNCATE_EXCLUDED = tables_truncate_excluded,
           FULL_TRANSFER_TABLES = full_transfer_tables,
           VALIDATE_DATA_BEFORE_TRANSFERRING = validate_data_before_transferring,
           USE_DATABASE_FOR_STORE_INTERMEDIATE_VALUES = use_database_for_store_intermediate_values,
           COLLECTOR_CHUNK_SIZE = collector_chunk_size,
           ASYNC_SEPARATION_COEFFICIENT = async_separation_coefficient \<rparr>)))))))))))))))"

section \<open>storages.py and the scratch store of db\_entities.py\<close>

text \<open>
  The scratch table \<open>storage_data(group_id, data)\<close> of the destination database
  carries \<open>UNIQUE (group_id, data)\<close>, so its content is a finite set of rows.
  The class \<open>StorageDataTable\<close> exists twice: in storages.py and, under the same
  name, at the end of db\_entities.py. Each class has its own class attributes
  \<open>_last_group_number\<close> and \<open>_dst_db\<close>; both write to the one table.
  \<open>storage_data = None\<close> means that the table does not exist.

  The statements are built by text interpolation and parsed by PostgreSQL. The
  model takes an identifier to be stored as the text \<open>str\<close> gives for it, which
  is what the interpolated literal denotes for integers and for text free of
  quotes and backslashes.
\<close>

datatype module = storages_py | db_entities_py

record class_attributes =
  last_group_number :: nat
  dst_db :: bool

record stores =
  storage_data :: "(nat \<times> string) fset option"
  storages_class :: class_attributes
  entities_class :: class_attributes

text \<open>
  A store object: an instance of one of the two \<open>StorageDataTable\<close> classes
  with its fields \<open>_have_value\<close> and \<open>_group\<close>, or a \<open>StorageList\<close> with its
  field \<open>_storage\<close>.
\<close>

datatype storage =
    StorageDataTable module bool nat
  | StorageList "string fset"

definition class_of :: "module \<Rightarrow> stores \<Rightarrow> class_attributes" where
  "class_of m w = (case m of storages_py \<Rightarrow> storages_class w | db_entities_py \<Rightarrow> entities_class w)"

definition class_update :: "module \<Rightarrow> class_attributes \<Rightarrow> stores \<Rightarrow> stores" where
  "class_update m c w =
     (case m of storages_py \<Rightarrow> w\<lparr>storages_class := c\<rparr>
              | db_entities_py \<Rightarrow> w\<lparr>entities_class := c\<rparr>)"

text \<open>
  The page size of the paged reads: \<open>COLLECTOR_CHUNK_SIZE\<close> in storages.py, the
  class constant \<open>CHUNK_SIZE = 30000\<close> in db\_entities.py.
\<close>

definition CHUNK_SIZE :: "settings \<Rightarrow> module \<Rightarrow> int" where
  "CHUNK_SIZE cfg m =
     (case m of storages_py \<Rightarrow> COLLECTOR_CHUNK_SIZE cfg | db_entities_py \<Rightarrow> 30000)"

subsection \<open>The statements on the scratch table\<close>

text \<open>
  \<open>execute_raw_sql\<close> and \<open>fetch_raw_sql\<close> are reached through the class
  attribute \<open>_dst_db\<close>, which is \<open>None\<close> until \<open>init_table\<close> has run: the
  attribute access then raises \<open>AttributeError\<close>. A statement on a missing table
  raises in the database.
\<close>

definition table_of :: "module \<Rightarrow> stores \<Rightarrow> error + (nat \<times> string) fset" where
  "table_of m w =
     (if \<not> dst_db (class_of m w) then Inl AttributeError
      else (case storage_data w of None \<Rightarrow> Inl PostgresError | Some rows \<Rightarrow> Inr rows))"

text \<open>\<open>SELECT data FROM storage_data WHERE group_id = '{group}' ORDER BY data\<close>.\<close>

definition ALL_DATA_SQL :: "nat \<Rightarrow> (nat \<times> string) fset \<Rightarrow> string list" where
  "ALL_DATA_SQL g rows = sorted_list_of_fset (snd |`| ffilter (\<lambda>r. fst r = g) rows)"

text \<open>\<open>DELETE FROM storage_data WHERE group_id = '{group}'\<close>.\<close>

definition DELETE_DATA_SQL :: "nat \<Rightarrow> (nat \<times> string) fset \<Rightarrow> (nat \<times> string) fset" where
  "DELETE_DATA_SQL g rows = ffilter (\<lambda>r. fst r \<noteq> g) rows"

text \<open>
  \<open>INSERT INTO storage_data (group_id, data) VALUES ... ON CONFLICT DO NOTHING\<close>;
  a value longer than the column's \<open>VARCHAR(255)\<close> fails the statement.
\<close>

definition INSERT_DATA_SQL ::
  "nat \<Rightarrow> pk list \<Rightarrow> (nat \<times> string) fset \<Rightarrow> error + (nat \<times> string) fset" where
  "INSERT_DATA_SQL g data rows =
     (if \<exists>i \<in> set data. 255 < length (py_str i) then Inl PostgresError
      else Inr (rows |\<union>| fset_of_list (map (\<lambda>i. (g, py_str i)) data)))"

text \<open>\<open>SELECT EXISTS(...)\<close> and \<open>SELECT count(*)\<close> for one group.\<close>

definition IS_EXIST_DATA_SQL :: "nat \<Rightarrow> (nat \<times> string) fset \<Rightarrow> bool" where
  "IS_EXIST_DATA_SQL g rows = (ffilter (\<lambda>r. fst r = g) rows \<noteq> {||})"

definition COUNT_DATA_SQL :: "nat \<Rightarrow> (nat \<times> string) fset \<Rightarrow> nat" where
  "COUNT_DATA_SQL g rows = fcard (ffilter (\<lambda>r. fst r = g) rows)"

text \<open>
  One step of \<open>BaseDatabase.get_iter\<close>: the query with
  \<open>LIMIT chunk_size OFFSET chunk_size * step\<close>. PostgreSQL rejects a negative
  limit.
\<close>

definition LIMIT_OFFSET_SQL :: "int \<Rightarrow> nat \<Rightarrow> string list \<Rightarrow> error + string list" where
  "LIMIT_OFFSET_SQL chunk_size step result =
     (if chunk_size < 0 then Inl PostgresError
      else Inr (take (nat chunk_size) (drop (nat chunk_size * step) result)))"

subsection \<open>StorageDataTable\<close>

definition StorageDataTable_init :: "module \<Rightarrow> stores \<Rightarrow> storage \<times> stores" where
  "StorageDataTable_init m w =
     (let c = class_of m w; n = last_group_number c + 1
      in (StorageDataTable m False n, class_update m (c\<lparr>last_group_number := n\<rparr>) w))"

definition drop_table :: "module \<Rightarrow> stores \<Rightarrow> error + stores" where
  "drop_table m w =
     (if \<not> dst_db (class_of m w) then Inl AttributeError
      else Inr (w\<lparr>storage_data := None\<rparr>))"

definition init_table :: "module \<Rightarrow> stores \<Rightarrow> error + stores" where
  "init_table m w =
     try_bind (drop_table m (class_update m ((class_of m w)\<lparr>dst_db := True\<rparr>) w))
       (\<lambda>w'. Inr (w'\<lparr>storage_data := Some {||}\<rparr>))"

text \<open>
  \<open>delete\<close>: only the class of storages.py resets \<open>_have_value\<close>; the copy in
  db\_entities.py leaves the field as it is.
\<close>

definition StorageDataTable_delete ::
  "module \<Rightarrow> bool \<Rightarrow> nat \<Rightarrow> stores \<Rightarrow> error + storage \<times> stores" where
  "StorageDataTable_delete m have_value g w =
     try_bind (table_of m w) (\<lambda>rows.
       Inr (StorageDataTable m (case m of storages_py \<Rightarrow> False | db_entities_py \<Rightarrow> have_value) g,
            w\<lparr>storage_data := Some (DELETE_DATA_SQL g rows)\<rparr>))"

text \<open>
  \<open>insert\<close>: nothing is sent for empty data. The store object itself does not
  change.
\<close>

definition StorageDataTable_insert :: "module \<Rightarrow> nat \<Rightarrow> pk list \<Rightarrow> stores \<Rightarrow> error + stores" where
  "StorageDataTable_insert m g data w =
     (if data = [] then Inr w
      else try_bind (table_of m w) (\<lambda>rows.
             try_bind (INSERT_DATA_SQL g data rows) (\<lambda>rows'.
               Inr (w\<lparr>storage_data := Some rows'\<rparr>))))"

definition StorageDataTable_is_not_empty ::
  "module \<Rightarrow> bool \<Rightarrow> nat \<Rightarrow> stores \<Rightarrow> error + bool \<times> storage" where
  "StorageDataTable_is_not_empty m have_value g w =
     (if \<not> have_value
      then try_bind (table_of m w) (\<lambda>rows.
             let r = IS_EXIST_DATA_SQL g rows in Inr (r, StorageDataTable m r g))
      else Inr (have_value, StorageDataTable m have_value g))"

definition StorageDataTable_len :: "module \<Rightarrow> nat \<Rightarrow> stores \<Rightarrow> error + nat" where
  "StorageDataTable_len m g w =
     try_bind (table_of m w) (\<lambda>rows. Inr (COUNT_DATA_SQL g rows))"

text \<open>
  \<open>__aiter__\<close> returns \<open>get_iter\<close>'s generator: page after page until an empty
  page. With nothing written in between, every page is cut from the same query
  result.
\<close>

function get_iter :: "string list \<Rightarrow> int \<Rightarrow> nat \<Rightarrow> string list generator" where
  "get_iter result chunk_size step =
     (case LIMIT_OFFSET_SQL chunk_size step result of
        Inl e \<Rightarrow> ([], Some e)
      | Inr data \<Rightarrow>
          if data = [] then ([], None)
          else (case get_iter result chunk_size (step + 1) of
                  (chunks, e) \<Rightarrow> (data # chunks, e)))"
  by pat_completeness auto
termination
proof (relation "measure (\<lambda>(result, chunk_size, step). length result - nat chunk_size * step)")
  show "wf (measure (\<lambda>(result, chunk_size, step). length result - nat chunk_size * step))"
    by simp
next
  fix result :: "string list" and chunk_size :: int and step :: nat and data :: "string list"
  assume page: "LIMIT_OFFSET_SQL chunk_size step result = Inr data" and ne: "data \<noteq> []"
  from page have data: "data = take (nat chunk_size) (drop (nat chunk_size * step) result)"
    by (simp add: LIMIT_OFFSET_SQL_def split: if_splits)
  with ne have "0 < nat chunk_size" and "nat chunk_size * step < length result"
    by (cases "nat chunk_size = 0"; simp)+
  then show "((result, chunk_size, step + 1), (result, chunk_size, step))
      \<in> measure (\<lambda>(result, chunk_size, step). length result - nat chunk_size * step)"
    by simp
qed

declare get_iter.simps [simp del]

definition StorageDataTable_aiter ::
  "settings \<Rightarrow> module \<Rightarrow> nat \<Rightarrow> stores \<Rightarrow> string list generator" where
  "StorageDataTable_aiter cfg m g w =
     (case table_of m w of
        Inl e \<Rightarrow> ([], Some e)
      | Inr rows \<Rightarrow> get_iter (ALL_DATA_SQL g rows) (CHUNK_SIZE cfg m) 0)"

subsection \<open>StorageList\<close>

definition StorageList_init :: storage where
  "StorageList_init = StorageList {||}"

definition StorageList_delete :: "string fset \<Rightarrow> storage" where
  "StorageList_delete storage = StorageList {||}"

text \<open>
  A Python set is iterated in an order the language leaves open; the model
  iterates in the order of the text.
\<close>

definition StorageList_aiter :: "settings \<Rightarrow> string fset \<Rightarrow> string list generator" where
  "StorageList_aiter cfg storage =
     make_chunks (sorted_list_of_fset storage) (COLLECTOR_CHUNK_SIZE cfg)"

definition StorageList_insert :: "string fset \<Rightarrow> pk list \<Rightarrow> storage" where
  "StorageList_insert storage data =
     (if data = [] then StorageList storage
      else StorageList (storage |\<union>| fset_of_list (map py_str data)))"

text \<open>
  \<open>self._storage.update(storage_data._storage)\<close>: an argument without the
  field \<open>_storage\<close> raises \<open>AttributeError\<close>.
\<close>

definition StorageList_add_storage_data :: "string fset \<Rightarrow> storage \<Rightarrow> error + storage" where
  "StorageList_add_storage_data storage storage_data' =
     (case storage_data' of
        StorageList other \<Rightarrow> Inr (StorageList (storage |\<union>| other))
      | StorageDataTable m h g \<Rightarrow> Inl AttributeError)"

definition StorageList_is_not_empty :: "string fset \<Rightarrow> bool" where
  "StorageList_is_not_empty storage = (storage \<noteq> {||})"

definition StorageList_len :: "string fset \<Rightarrow> nat" where
  "StorageList_len storage = fcard storage"

subsection \<open>create\_storage\<close>

definition create_storage :: "settings \<Rightarrow> stores \<Rightarrow> storage \<times> stores" where
  "create_storage cfg w =
     (if USE_DATABASE_FOR_STORE_INTERMEDIATE_VALUES cfg
      then StorageDataTable_init storages_py w
      else (StorageList_init, w))"

subsection \<open>add\_storage\_data of StorageDataTable\<close>

text \<open>
  An operation that writes in several steps can raise after some of them: its
  outcome is the state reached together with the exception, if any.
\<close>

type_synonym 'a outcome = "'a \<times> error option"

lemma ALL_DATA_SQL_set: "set (ALL_DATA_SQL g rows) = {d. (g, d) |\<in>| rows}"
  by (force simp: ALL_DATA_SQL_def image_iff)

lemma INSERT_DATA_SQL_keeps_group:
  assumes "INSERT_DATA_SQL g (map PkStr data) rows = Inr rows'"
    and "set data \<subseteq> set (ALL_DATA_SQL g' rows)"
  shows "ALL_DATA_SQL g' rows' = ALL_DATA_SQL g' rows"
proof -
  from assms(1) have rows': "rows' = rows |\<union>| fset_of_list (map (\<lambda>i. (g, py_str i)) (map PkStr data))"
    by (simp add: INSERT_DATA_SQL_def split: if_splits)
  have "ffilter (\<lambda>r. fst r = g') rows' = ffilter (\<lambda>r. fst r = g') rows"
    using assms(2) unfolding rows' ALL_DATA_SQL_set
    by (auto simp: fset_of_list.rep_eq)
  then show ?thesis by (simp add: ALL_DATA_SQL_def)
qed

text \<open>
  \<open>async for chunk in storage_data: await self.insert(chunk)\<close> with a
  \<open>StorageDataTable\<close> as the source: every round reads the next page of the
  source group (class \<open>m'\<close>, group \<open>g'\<close>) from the table as it is then, and
  inserts the page into the own group (class \<open>m\<close>, group \<open>g\<close>).
\<close>

function add_pages ::
  "module \<Rightarrow> nat \<Rightarrow> module \<Rightarrow> nat \<Rightarrow> int \<Rightarrow> nat \<Rightarrow> stores \<Rightarrow> stores outcome" where
  "add_pages m g m' g' chunk_size step w =
     (case try_bind (table_of m' w)
             (\<lambda>rows. LIMIT_OFFSET_SQL chunk_size step (ALL_DATA_SQL g' rows)) of
        Inl e \<Rightarrow> (w, Some e)
      | Inr data \<Rightarrow>
          if data = [] then (w, None)
          else (case StorageDataTable_insert m g (map PkStr data) w of
                  Inl e \<Rightarrow> (w, Some e)
                | Inr w' \<Rightarrow> add_pages m g m' g' chunk_size (step + 1) w'))"
  by pat_completeness auto

definition pages_left :: "nat \<Rightarrow> int \<Rightarrow> nat \<Rightarrow> stores \<Rightarrow> nat" where
  "pages_left g' chunk_size step w =
     (case storage_data w of
        None \<Rightarrow> 0
      | Some rows \<Rightarrow> length (ALL_DATA_SQL g' rows) - nat chunk_size * step)"

lemma add_pages_decreases:
  assumes page: "try_bind (table_of m' w)
      (\<lambda>rows. LIMIT_OFFSET_SQL chunk_size step (ALL_DATA_SQL g' rows)) = Inr data"
    and ne: "data \<noteq> []"
    and ins: "StorageDataTable_insert m g (map PkStr data) w = Inr w'"
  shows "pages_left g' chunk_size (step + 1) w' < pages_left g' chunk_size step w"
proof -
  from page obtain rows where rows: "storage_data w = Some rows"
    and data: "data = take (nat chunk_size) (drop (nat chunk_size * step) (ALL_DATA_SQL g' rows))"
    by (auto simp: try_bind_def table_of_def LIMIT_OFFSET_SQL_def
        split: sum.splits if_splits option.splits)
  from data ne have pos: "0 < nat chunk_size"
    and more: "nat chunk_size * step < length (ALL_DATA_SQL g' rows)"
    by (cases "nat chunk_size = 0"; simp)+
  have sub: "set data \<subseteq> set (ALL_DATA_SQL g' rows)"
    unfolding data by (meson set_take_subset set_drop_subset subset_trans)
  from ins ne rows obtain rows' where rows': "storage_data w' = Some rows'"
    and "INSERT_DATA_SQL g (map PkStr data) rows = Inr rows'"
    by (auto simp: StorageDataTable_insert_def try_bind_def table_of_def
        split: sum.splits if_splits)
  with sub have "ALL_DATA_SQL g' rows' = ALL_DATA_SQL g' rows"
    by (simp add: INSERT_DATA_SQL_keeps_group)
  with rows rows' pos more show ?thesis
    by (simp add: pages_left_def)
qed

termination add_pages
  by (relation "measure (\<lambda>(m, g, m', g', chunk_size, step, w). pages_left g' chunk_size step w)")
     (simp_all add: add_pages_decreases [simplified])

declare add_pages.simps [simp del]

text \<open>The same loop over the chunks of a \<open>StorageList\<close>, which no insert changes.\<close>

fun insert_chunks :: "module \<Rightarrow> nat \<Rightarrow> string list list \<Rightarrow> stores \<Rightarrow> stores outcome" where
  "insert_chunks m g [] w = (w, None)"
| "insert_chunks m g (chunk # chunks) w =
     (case StorageDataTable_insert m g (map PkStr chunk) w of
        Inl e \<Rightarrow> (w, Some e)
      | Inr w' \<Rightarrow> insert_chunks m g chunks w')"

definition StorageDataTable_add_storage_data ::
  "settings \<Rightarrow> module \<Rightarrow> nat \<Rightarrow> storage \<Rightarrow> stores \<Rightarrow> stores outcome" where
  "StorageDataTable_add_storage_data cfg m g storage_data' w =
     (case storage_data' of
        StorageDataTable m' h' g' \<Rightarrow> add_pages m g m' g' (CHUNK_SIZE cfg m') 0 w
      | StorageList other \<Rightarrow>
          (case StorageList_aiter cfg other of
             (chunks, e) \<Rightarrow>
               (case insert_chunks m g chunks w of
                  (w', None) \<Rightarrow> (w', e)
                | (w', Some e') \<Rightarrow> (w', Some e'))))"

subsection \<open>The methods as called on a store of either kind\<close>

text \<open>
  A call \<open>store.insert(...)\<close> runs the method of the store's class. The result
  is the store object and the scratch table after the call.
\<close>

definition AbstractStorage_insert ::
  "storage \<Rightarrow> pk list \<Rightarrow> stores \<Rightarrow> (storage \<times> stores) outcome" where
  "AbstractStorage_insert self data w =
     (case self of
        StorageDataTable m h g \<Rightarrow>
          (case StorageDataTable_insert m g data w of
             Inl e \<Rightarrow> ((self, w), Some e)
           | Inr w' \<Rightarrow> ((self, w'), None))
      | StorageList storage \<Rightarrow> ((StorageList_insert storage data, w), None))"

definition AbstractStorage_add_storage_data ::
  "settings \<Rightarrow> storage \<Rightarrow> storage \<Rightarrow> stores \<Rightarrow> (storage \<times> stores) outcome" where
  "AbstractStorage_add_storage_data cfg self storage_data' w =
     (case self of
        StorageDataTable m h g \<Rightarrow>
          (case StorageDataTable_add_storage_data cfg m g storage_data' w of
             (w', e) \<Rightarrow> ((self, w'), e))
      | StorageList storage \<Rightarrow>
          (case StorageList_add_storage_data storage storage_data' of
             Inl e \<Rightarrow> ((self, w), Some e)
           | Inr self' \<Rightarrow> ((self', w), None)))"

definition AbstractStorage_delete :: "storage \<Rightarrow> stores \<Rightarrow> error + storage \<times> stores" where
  "AbstractStorage_delete self w =
     (case self of
        StorageDataTable m h g \<Rightarrow> StorageDataTable_delete m h g w
      | StorageList storage \<Rightarrow> Inr (StorageList_delete storage, w))"

definition AbstractStorage_len :: "storage \<Rightarrow> stores \<Rightarrow> error + nat" where
  "AbstractStorage_len self w =
     (case self of
        StorageDataTable m h g \<Rightarrow> StorageDataTable_len m g w
      | StorageList storage \<Rightarrow> Inr (StorageList_len storage))"

definition AbstractStorage_is_not_empty :: "storage \<Rightarrow> stores \<Rightarrow> error + bool \<times> storage" where
  "AbstractStorage_is_not_empty self w =
     (case self of
        StorageDataTable m h g \<Rightarrow> StorageDataTable_is_not_empty m h g w
      | StorageList storage \<Rightarrow> Inr (StorageList_is_not_empty storage, self))"

definition AbstractStorage_aiter :: "settings \<Rightarrow> storage \<Rightarrow> stores \<Rightarrow> string list generator" where
  "AbstractStorage_aiter cfg self w =
     (case self of
        StorageDataTable m h g \<Rightarrow> StorageDataTable_aiter cfg m g w
      | StorageList storage \<Rightarrow> StorageList_aiter cfg storage)"

text \<open>
  The identifiers a store holds: the rows of its group in the scratch table,
  or the members of the in-memory set.
\<close>

definition stored :: "storage \<Rightarrow> stores \<Rightarrow> string fset" where
  "stored self w =
     (case self of
        StorageDataTable m h g \<Rightarrow>
          (case storage_data w of
             None \<Rightarrow> {||}
           | Some rows \<Rightarrow> snd |`| ffilter (\<lambda>r. fst r = g) rows)
      | StorageList storage \<Rightarrow> storage)"

section \<open>db\_entities.py: columns and tables\<close>

text \<open>
  Modelled from the spec: \<open>ConstraintTypesEnum\<close> of core/enums.py, which is not
  among the sources. The spec names the constraint types \<open>PRIMARY_KEY\<close>,
  \<open>FOREIGN_KEY\<close> and \<open>UNIQUE\<close>; \<open>OTHER\<close> stands for any other text the
  catalogue query may report.
\<close>

datatype ConstraintTypesEnum = PRIMARY_KEY | FOREIGN_KEY | UNIQUE | OTHER string

text \<open>
  A \<open>DBColumn\<close> refers to its referent \<open>DBTable\<close> object and a \<open>DBTable\<close>
  to the columns that reference it, so the objects form a cyclic graph. Tables
  are therefore kept in a heap indexed by table name (\<open>prepare_tables\<close> keys
  every table by its name, and \<open>DBTable\<close> compares and hashes by name), and a
  reference to a table is its name. A column is referred to by its name within
  its table. The field \<open>name\<close> of \<open>DBColumn\<close> is called \<open>column_name\<close> here.
\<close>

record DBColumn =
  column_name :: string
  table_name :: string
  data_type :: string
  ordinal_position :: int
  constraint_table :: "string option"
  constraint_type :: "ConstraintTypesEnum list"

record DBTable =
  name :: string
  full_count :: int
  max_pk :: int
  columns :: "(string \<times> DBColumn) list"
  is_ready_for_transferring :: bool
  is_checked :: bool
  key_column :: "string option"
  revert_foreign_tables :: "string \<Rightarrow> string set"
  need_transfer_pks :: storage
  transferred_pks_count :: int

type_synonym heap = "string \<rightharpoonup> DBTable"

text \<open>
  The truth value of the argument \<open>constraint_type\<close>: \<open>None\<close> and the empty
  text are false.
\<close>

definition constraint_given :: "ConstraintTypesEnum option \<Rightarrow> bool" where
  "constraint_given c = (case c of None \<Rightarrow> False | Some (OTHER s) \<Rightarrow> s \<noteq> [] | Some _ \<Rightarrow> True)"

definition DBColumn_init ::
  "string \<Rightarrow> string \<Rightarrow> string \<Rightarrow> int \<Rightarrow> string option \<Rightarrow> ConstraintTypesEnum option
    \<Rightarrow> error + DBColumn" where
  "DBColumn_init column_name' table_name' data_type' ordinal_position' constraint_table'
       constraint_type' =
     (if column_name' = [] then Inl AssertionError
      else if table_name' = [] then Inl AssertionError
      else Inr \<lparr> column_name = column_name', table_name = table_name',
                 data_type = data_type', ordinal_position = ordinal_position',
                 constraint_table = constraint_table',
                 constraint_type =
                   (case constraint_type' of
                      None \<Rightarrow> []
                    | Some c \<Rightarrow> if constraint_given constraint_type' then [c] else []) \<rparr>)"

text \<open>
  \<open>DBTable.__init__\<close> takes the class \<open>StorageDataTable\<close> that db\_entities.py
  defines itself.
\<close>

definition DBTable_init :: "string \<Rightarrow> stores \<Rightarrow> DBTable \<times> stores" where
  "DBTable_init name' w =
     (case StorageDataTable_init db_entities_py w of
        (store, w') \<Rightarrow>
          (\<lparr> name = name', full_count = 0, max_pk = 0, columns = [],
             is_ready_for_transferring = False, is_checked = False, key_column = None,
             revert_foreign_tables = (\<lambda>_. {}), need_transfer_pks = store,
             transferred_pks_count = 0 \<rparr>, w'))"

subsection \<open>Properties of a column\<close>

definition is_foreign_key :: "DBColumn \<Rightarrow> bool" where
  "is_foreign_key c = (FOREIGN_KEY \<in> set (constraint_type c))"

definition is_primary_key :: "DBColumn \<Rightarrow> bool" where
  "is_primary_key c = (PRIMARY_KEY \<in> set (constraint_type c))"

definition is_unique :: "DBColumn \<Rightarrow> bool" where
  "is_unique c = (UNIQUE \<in> set (constraint_type c) \<or> (is_foreign_key c \<and> is_primary_key c))"

text \<open>\<open>deep_getattr(self.constraint_table, 'name')\<close> is \<open>None\<close> without a referent.\<close>

definition is_key_column :: "settings \<Rightarrow> DBColumn \<Rightarrow> bool" where
  "is_key_column cfg c =
     (column_name c \<in> set (KEY_COLUMN_NAMES cfg) \<or> constraint_table c = Some (KEY_TABLE_NAME cfg))"

definition is_self_fk :: "DBColumn \<Rightarrow> bool" where
  "is_self_fk c = (is_foreign_key c \<and> constraint_table c = Some (table_name c))"

subsection \<open>Properties of a table\<close>

text \<open>
  The properties are memoised with \<open>lru_cache\<close>. The ones of this subsection
  are first read after introspection, when the schema no longer changes, so
  the value a read returns is the value computed on the schema.
\<close>

definition values_of :: "DBTable \<Rightarrow> DBColumn list" where
  "values_of t = map snd (columns t)"

definition primary_key :: "DBTable \<Rightarrow> DBColumn option" where
  "primary_key t =
     (case filter (\<lambda>c. PRIMARY_KEY \<in> set (constraint_type c) \<and> data_type c \<noteq> ''date'')
             (values_of t) of
        [] \<Rightarrow> None
      | c # _ \<Rightarrow> Some c)"

definition with_key_column :: "DBTable \<Rightarrow> bool" where
  "with_key_column t = (key_column t \<noteq> None)"

definition foreign_keys_columns :: "DBTable \<Rightarrow> DBColumn list" where
  "foreign_keys_columns t = filter is_foreign_key (values_of t)"

definition self_fk_columns :: "DBTable \<Rightarrow> DBColumn list" where
  "self_fk_columns t = filter is_self_fk (values_of t)"

definition not_self_fk_columns :: "DBTable \<Rightarrow> DBColumn list" where
  "not_self_fk_columns t = filter (\<lambda>c. is_foreign_key c \<and> \<not> is_self_fk c) (values_of t)"

definition unique_fk_columns :: "DBTable \<Rightarrow> DBColumn list" where
  "unique_fk_columns t = filter (\<lambda>c. is_foreign_key c \<and> is_unique c) (not_self_fk_columns t)"

text \<open>
  \<open>column.constraint_table\<close> followed to the table object; reading an attribute
  of \<open>None\<close> raises \<open>AttributeError\<close>. A name that is not in the heap stands for
  no object and is treated alike.
\<close>

definition referent :: "heap \<Rightarrow> DBColumn \<Rightarrow> error + DBTable" where
  "referent h c =
     (case constraint_table c of
        None \<Rightarrow> Inl AttributeError
      | Some r \<Rightarrow> (case h r of None \<Rightarrow> Inl AttributeError | Some t \<Rightarrow> Inr t))"

fun try_filter :: "('a \<Rightarrow> error + bool) \<Rightarrow> 'a list \<Rightarrow> error + 'a list" where
  "try_filter p [] = Inr []"
| "try_filter p (x # xs) =
     try_bind (p x) (\<lambda>b. try_bind (try_filter p xs) (\<lambda>ys. Inr (if b then x # ys else ys)))"

definition referent_with_key_column :: "heap \<Rightarrow> DBColumn \<Rightarrow> error + bool" where
  "referent_with_key_column h c = try_bind (referent h c) (\<lambda>t. Inr (with_key_column t))"

definition fk_columns_with_key_column :: "heap \<Rightarrow> DBTable \<Rightarrow> error + DBColumn list" where
  "fk_columns_with_key_column h t =
     try_filter (referent_with_key_column h) (not_self_fk_columns t)"

text \<open>
  \<open>list(set(a).intersection(b))\<close>: the order of the result is left open by
  Python; the model keeps the order of \<open>a\<close>.
\<close>

definition unique_fk_columns_with_key_column :: "heap \<Rightarrow> DBTable \<Rightarrow> error + DBColumn list" where
  "unique_fk_columns_with_key_column h t =
     try_bind (fk_columns_with_key_column h t)
       (\<lambda>direct. Inr (filter (\<lambda>c. c \<in> set direct) (remdups (unique_fk_columns t))))"

text \<open>
  The inner loop of the two-hop properties: \<open>column\<close> is appended once for every
  non-self foreign key of its referent that leads to a table with a key column.
\<close>

definition two_hop :: "heap \<Rightarrow> DBColumn \<Rightarrow> error + DBColumn list" where
  "two_hop h column =
     try_bind (referent h column) (\<lambda>t.
       try_bind (try_filter (referent_with_key_column h) (not_self_fk_columns t))
         (\<lambda>constraint_columns. Inr (map (\<lambda>_. column) constraint_columns)))"

definition fk_columns_tables_with_fk_columns_with_key_column ::
  "heap \<Rightarrow> DBTable \<Rightarrow> error + DBColumn list" where
  "fk_columns_tables_with_fk_columns_with_key_column h t =
     try_bind (try_map (two_hop h) (not_self_fk_columns t)) (\<lambda>xss. Inr (concat xss))"

definition unique_fk_columns_tables_with_fk_columns_with_key_column ::
  "heap \<Rightarrow> DBTable \<Rightarrow> error + DBColumn list" where
  "unique_fk_columns_tables_with_fk_columns_with_key_column h t =
     try_bind (try_map (two_hop h) (unique_fk_columns t)) (\<lambda>xss. Inr (concat xss))"

definition highest_priority_fk_columns :: "heap \<Rightarrow> DBTable \<Rightarrow> error + DBColumn list" where
  "highest_priority_fk_columns h t =
     try_bind (unique_fk_columns_with_key_column h t) (\<lambda>unique_direct.
       if unique_direct \<noteq> [] then Inr unique_direct
       else
         try_bind (unique_fk_columns_tables_with_fk_columns_with_key_column h t) (\<lambda>unique_two_hop.
         try_bind (fk_columns_with_key_column h t) (\<lambda>direct.
           if unique_two_hop \<noteq> [] \<or> direct \<noteq> []
           then Inr ((if unique_two_hop \<noteq> [] then unique_two_hop else [])
                      @ (if direct \<noteq> [] then direct else []))
           else
             try_bind (fk_columns_tables_with_fk_columns_with_key_column h t) (\<lambda>two_hops.
               if two_hops \<noteq> [] then Inr two_hops
               else Inr (not_self_fk_columns t)))))"

subsection \<open>Introspection: append\_column\<close>

text \<open>
  \<open>DBColumn.is_foreign_key\<close> and \<open>DBColumn.is_key_column\<close> are read while the
  schema is being built, so their memo is part of the state:
  \<open>functools.lru_cache\<close> with its default of 128 entries, keyed by the column
  object, most recently used first. A hit returns the stored value whatever
  the column looks like now.
\<close>

type_synonym column_key = "string \<times> string"

record memo =
  is_foreign_key_cache :: "(column_key \<times> bool) list"
  is_key_column_cache :: "(column_key \<times> bool) list"

definition lru_cache :: "'k \<Rightarrow> bool \<Rightarrow> ('k \<times> bool) list \<Rightarrow> bool \<times> ('k \<times> bool) list" where
  "lru_cache key computed cache =
     (case map_of cache key of
        Some v \<Rightarrow> (v, (key, v) # filter (\<lambda>e. fst e \<noteq> key) cache)
      | None \<Rightarrow> (computed, take 128 ((key, computed) # cache)))"

definition key_of :: "DBColumn \<Rightarrow> column_key" where
  "key_of c = (table_name c, column_name c)"

text \<open>
  The first half of \<open>append_column\<close>: the column object after the call, the
  table with it, and the memo. An existing column gains the constraint type,
  and with \<open>FOREIGN_KEY\<close> the new referent, upon which the memo of
  \<open>is_foreign_key\<close> is cleared; a new column is created and stored.
\<close>

definition append_column_store ::
  "DBTable \<Rightarrow> string \<Rightarrow> string \<Rightarrow> int \<Rightarrow> string option \<Rightarrow> ConstraintTypesEnum option \<Rightarrow> memo
    \<Rightarrow> error + DBColumn \<times> DBTable \<times> memo" where
  "append_column_store self column_name' data_type' ordinal_position' constraint_table'
       constraint_type' mm =
     (case map_of (columns self) column_name' of
        Some column \<Rightarrow>
          (case constraint_type' of
             None \<Rightarrow> Inr (column, self, mm)
           | Some c \<Rightarrow>
               if \<not> constraint_given constraint_type' then Inr (column, self, mm)
               else if c = FOREIGN_KEY
               then (let column' = column\<lparr>constraint_type := constraint_type column @ [c],
                                          constraint_table := constraint_table'\<rparr>
                     in Inr (column',
                             self\<lparr>columns := AList.update column_name' column' (columns self)\<rparr>,
                             mm\<lparr>is_foreign_key_cache := []\<rparr>))
               else (let column' = column\<lparr>constraint_type := constraint_type column @ [c]\<rparr>
                     in Inr (column',
                             self\<lparr>columns := AList.update column_name' column' (columns self)\<rparr>,
                             mm)))
      | None \<Rightarrow>
          try_bind
            (DBColumn_init column_name' (name self)
               (if data_type' = ''ARRAY'' then ''integer array'' else data_type')
               ordinal_position' constraint_table' constraint_type')
            (\<lambda>column.
               Inr (column,
                    self\<lparr>columns := AList.update column_name' column (columns self)\<rparr>,
                    mm)))"

text \<open>
  The middle of \<open>append_column\<close>: \<open>if not self._key_column and
  column.is_key_column\<close>. The memoised property is read only when the table
  has no key column yet.
\<close>

definition append_column_key :: "settings \<Rightarrow> DBColumn \<Rightarrow> DBTable \<Rightarrow> memo \<Rightarrow> DBTable \<times> memo" where
  "append_column_key cfg column self mm =
     (if key_column self = None
      then (case lru_cache (key_of column) (is_key_column cfg column) (is_key_column_cache mm) of
              (v, cache) \<Rightarrow>
                (if v then self\<lparr>key_column := Some (column_name column)\<rparr> else self,
                 mm\<lparr>is_key_column_cache := cache\<rparr>))
      else (self, mm))"

text \<open>
  The end of \<open>append_column\<close>: a foreign-key column is entered into
  \<open>revert_foreign_tables\<close> of its referent under the own table. The referent
  may be the table itself, so it is read from the heap \<open>h\<close> in which the table
  has already been written back; \<open>self\<close> is the table as it is in that heap.
\<close>

definition append_column_link ::
  "DBColumn \<Rightarrow> DBTable \<Rightarrow> heap \<Rightarrow> memo \<Rightarrow> error + heap \<times> memo" where
  "append_column_link column self h mm =
     (case lru_cache (key_of column) (is_foreign_key column) (is_foreign_key_cache mm) of
        (v, cache) \<Rightarrow>
          if v
          then (case referent h column of
                  Inl e \<Rightarrow> Inl AttributeError
                | Inr r \<Rightarrow>
                    (case constraint_table column of
                       None \<Rightarrow> Inl AttributeError
                     | Some rn \<Rightarrow>
                         Inr (h(rn \<mapsto> r\<lparr>revert_foreign_tables :=
                                (revert_foreign_tables r)
                                  (name self := insert (column_name column)
                                     (revert_foreign_tables r (name self)))\<rparr>),
                              mm\<lparr>is_foreign_key_cache := cache\<rparr>)))
          else Inr (h, mm\<lparr>is_foreign_key_cache := cache\<rparr>))"

text \<open>\<open>append_column\<close> of the table stored under \<open>self\<close>.\<close>

definition append_column ::
  "settings \<Rightarrow> string \<Rightarrow> string \<Rightarrow> string \<Rightarrow> int \<Rightarrow> string option
    \<Rightarrow> ConstraintTypesEnum option \<Rightarrow> heap \<times> memo \<Rightarrow> error + heap \<times> memo" where
  "append_column cfg self column_name' data_type' ordinal_position' constraint_table'
       constraint_type' s =
     (case s of (h, mm) \<Rightarrow>
      (case h self of
         None \<Rightarrow> Inl KeyError
       | Some t \<Rightarrow>
           try_bind
             (append_column_store t column_name' data_type' ordinal_position' constraint_table'
                constraint_type' mm)
             (\<lambda>(column, t1, mm1).
                case append_column_key cfg column t1 mm1 of
                  (t2, mm2) \<Rightarrow> append_column_link column t2 (h(self \<mapsto> t2)) mm2)))"

subsection \<open>Introspection: DstDatabase\<close>

text \<open>
  A row of the catalogue query: table name, column name, data type, ordinal
  position, name of the constraint's table, constraint type.
\<close>

type_synonym column_row =
  "string \<times> string \<times> string \<times> int \<times> string option \<times> ConstraintTypesEnum option"

definition row_kept :: "settings \<Rightarrow> column_row \<Rightarrow> bool" where
  "row_kept cfg r =
     (case r of (tn, cn, dt, pos, ctn, ct) \<Rightarrow>
        (case ctn of None \<Rightarrow> True | Some n \<Rightarrow> n \<notin> set (EXCLUDED_TABLES cfg)))"

text \<open>\<open>self.tables.get(constraint_table_name)\<close>: the table object, or \<open>None\<close>.\<close>

definition tables_get :: "heap \<Rightarrow> string option \<Rightarrow> string option" where
  "tables_get h ctn =
     (case ctn of
        None \<Rightarrow> None
      | Some n \<Rightarrow> (case h n of None \<Rightarrow> None | Some t \<Rightarrow> Some n))"

fun append_columns :: "settings \<Rightarrow> column_row list \<Rightarrow> heap \<times> memo \<Rightarrow> error + heap \<times> memo" where
  "append_columns cfg [] s = Inr s"
| "append_columns cfg ((tn, cn, dt, pos, ctn, ct) # rows) s =
     try_bind (append_column cfg tn cn dt pos (tables_get (fst s) ctn) ct s)
       (append_columns cfg rows)"

text \<open>
  \<open>_prepare_chunk_tables\<close> for the rows fetched for one chunk. Building the list
  of coroutines looks every table up (\<open>KeyError\<close> for an unknown one) before any
  of them runs; \<open>asyncio.gather\<close> then runs them in order, none of them
  suspends, and the first exception is the one that propagates.
\<close>

definition prepare_chunk_tables ::
  "settings \<Rightarrow> column_row list \<Rightarrow> heap \<times> memo \<Rightarrow> error + heap \<times> memo" where
  "prepare_chunk_tables cfg records s =
     (let kept = filter (row_kept cfg) records
      in if \<exists>r \<in> set kept. fst s (fst r) = None then Inl KeyError
         else append_columns cfg kept s)"

fun prepare_chunks ::
  "settings \<Rightarrow> column_row list list \<Rightarrow> heap \<times> memo \<Rightarrow> error + heap \<times> memo" where
  "prepare_chunks cfg [] s = Inr s"
| "prepare_chunks cfg (records # batches) s =
     try_bind (prepare_chunk_tables cfg records s) (prepare_chunks cfg batches)"

fun create_tables :: "string list \<Rightarrow> heap \<Rightarrow> stores \<Rightarrow> heap \<times> stores" where
  "create_tables [] h w = (h, w)"
| "create_tables (n # ns) h w =
     (case DBTable_init n w of (t, w') \<Rightarrow> create_tables ns (h(n \<mapsto> t)) w')"

text \<open>
  \<open>prepare_tables\<close>: one fresh table per name, then the chunks. \<open>batches\<close> are
  the rows the catalogue returned for the chunks, in the order in which the
  chunks' queries completed; the appends of one chunk run without interruption.
\<close>

definition prepare_tables ::
  "settings \<Rightarrow> string list \<Rightarrow> column_row list list \<Rightarrow> stores
    \<Rightarrow> error + (heap \<times> memo) \<times> stores" where
  "prepare_tables cfg table_names' batches w =
     (case create_tables table_names' Map.empty w of
        (h, w') \<Rightarrow>
          (case make_chunks table_names' (TABLES_LIMIT_PER_TRANSACTION cfg) of
             (chunks, Some e) \<Rightarrow> Inl e
           | (chunks, None) \<Rightarrow>
               try_bind
                 (prepare_chunks cfg batches
                    (h, \<lparr>is_foreign_key_cache = [], is_key_column_cache = []\<rparr>))
                 (\<lambda>s. Inr (s, w'))))"

subsection \<open>update\_need\_transfer\_pks\<close>

text \<open>
  The argument is either an iterable of identifiers or a store object.
  \<open>isinstance(need_transfer_pks, StorageDataTable)\<close> tests for the class of
  db\_entities.py; any other store object goes to \<open>insert\<close>, which cannot
  iterate it and raises \<open>TypeError\<close>.
\<close>

datatype need_transfer_pks_arg = Pks "pk list" | Store storage

definition update_need_transfer_pks ::
  "settings \<Rightarrow> DBTable \<Rightarrow> need_transfer_pks_arg \<Rightarrow> stores \<Rightarrow> (DBTable \<times> stores) outcome" where
  "update_need_transfer_pks cfg self arg w =
     (case (case arg of
              Store (StorageDataTable db_entities_py hv g) \<Rightarrow>
                AbstractStorage_add_storage_data cfg (need_transfer_pks self)
                  (StorageDataTable db_entities_py hv g) w
            | Store _ \<Rightarrow> ((need_transfer_pks self, w), Some TypeError)
            | Pks data \<Rightarrow> AbstractStorage_insert (need_transfer_pks self) data w) of
        ((store, w'), e) \<Rightarrow> ((self\<lparr>need_transfer_pks := store\<rparr>, w'), e))"

subsection \<open>truncate\_tables\<close>

text \<open>
  \<open>SQLRepository.get_truncate_table_queries\<close> is not among the sources; it is
  the parameter \<open>get_truncate_table_queries\<close>. The result is the list of the
  queries sent to the destination, in order. \<open>table_names\<close> is \<open>None\<close> before
  \<open>prepare_table_names\<close> has run, and \<open>filter\<close> over \<open>None\<close> raises \<open>TypeError\<close>.
\<close>

definition truncate_tables ::
  "settings \<Rightarrow> string list option \<Rightarrow> (string list \<Rightarrow> 'q list) \<Rightarrow> error + 'q list" where
  "truncate_tables cfg table_names' get_truncate_table_queries =
     (if IS_TRUNCATE_TABLES cfg
      then
        try_bind
          (if TABLES_TRUNCATE_INCLUDED cfg \<noteq> [] then Inr (TABLES_TRUNCATE_INCLUDED cfg)
           else (case table_names' of
                   None \<Rightarrow> Inl TypeError
                 | Some ns \<Rightarrow>
                     Inr (filter (\<lambda>table_name. table_name \<notin> set (TABLES_WITH_GENERIC_FOREIGN_KEY cfg))
                            ns)))
          (\<lambda>names.
             let names' =
                   (if TABLES_TRUNCATE_EXCLUDED cfg \<noteq> []
                    then filter (\<lambda>table_name. table_name \<notin> set (TABLES_TRUNCATE_EXCLUDED cfg)) names
                    else names)
             in Inr (get_truncate_table_queries names'))
      else Inr [])"

subsection \<open>set\_max\_sequence\<close>

datatype log_level = LOG_INFO | LOG_WARNING

type_synonym log_record = "log_level \<times> string"

text \<open>
  Modelled from the spec: the two queries of \<open>SQLRepository\<close> (not among the
  sources) that \<open>set_max_sequence\<close> sends, the lookup of the serial sequence of
  a table's column and \<open>setval\<close>. \<open>serial_sequence\<close> is what \<open>fetchrow\<close> returns
  for the lookup: no row, a row with \<open>NULL\<close>, or a row with the sequence name.
\<close>

record destination =
  serial_sequence :: "string \<Rightarrow> string \<Rightarrow> string option option"
  sequence_value :: "string \<rightharpoonup> int"

definition set_max_sequence :: "DBTable \<Rightarrow> destination \<Rightarrow> destination \<times> log_record list" where
  "set_max_sequence self d =
     (case primary_key self of
        None \<Rightarrow> (d, [(LOG_WARNING, ''AttributeError --- '' @ name self @ '' --- set_max_sequence'')])
      | Some pk \<Rightarrow>
          (case serial_sequence d (name self) (column_name pk) of
             Some (Some serial_seq_name) \<Rightarrow>
               if serial_seq_name \<noteq> []
               then (let max_val = max_pk self + 100000
                     in (d\<lparr>sequence_value := (sequence_value d)(serial_seq_name \<mapsto> max_val)\<rparr>, []))
               else (d, [])
           | _ \<Rightarrow> (d, [])))"

section \<open>transporters.py\<close>

text \<open>
  Modelled from the spec: the statement of \<open>SQLRepository.get_transfer_records_sql\<close>
  (not among the sources), which pulls the rows with the given primary keys
  from the source into the destination table, skips rows already there, and
  returns the keys inserted. Rows are identified by the text of their primary
  key. \<open>shape_error\<close> marks the tables for which the destination answers with
  one of the four data-shape errors that the transporter wraps.
\<close>

record databases =
  src_rows :: "string \<Rightarrow> string fset"
  dst_rows :: "string \<Rightarrow> string fset"
  shape_error :: "string \<Rightarrow> bool"
  issued :: "(string \<times> string list) list"
  log :: "log_record list"

definition quoted :: "string \<Rightarrow> string" where
  "quoted s = CHR 0x22 # s @ [CHR 0x22]"

definition transfer_chunk_table_data ::
  "DBTable \<Rightarrow> string list \<Rightarrow> databases \<Rightarrow> (DBTable \<times> databases) outcome" where
  "transfer_chunk_table_data table need_import_ids_chunk db =
     (let db1 = db\<lparr>log := log db @ [(LOG_INFO, ''transfer chunk table data - '' @ quoted (name table))],
                   issued := issued db @ [(name table, need_import_ids_chunk)]\<rparr>
      in if shape_error db (name table) then ((table, db1), Some PostgresError)
         else
           (let transferred_ids =
                  filter (\<lambda>i. i |\<in>| src_rows db (name table) \<and> i |\<notin>| dst_rows db (name table))
                    (remdups need_import_ids_chunk);
                db2 = db1\<lparr>dst_rows := (dst_rows db)
                            (name table := dst_rows db (name table) |\<union>| fset_of_list transferred_ids)\<rparr>
            in if transferred_ids \<noteq> []
               then ((table\<lparr>transferred_pks_count :=
                         transferred_pks_count table + int (length transferred_ids)\<rparr>, db2), None)
               else ((table, db2), None)))"

fun transfer_chunks ::
  "DBTable \<Rightarrow> string list list \<Rightarrow> databases \<Rightarrow> (DBTable \<times> databases) outcome" where
  "transfer_chunks table [] db = ((table, db), None)"
| "transfer_chunks table (chunk # chunks) db =
     (case transfer_chunk_table_data table chunk db of
        ((table', db'), Some e) \<Rightarrow> ((table', db'), Some e)
      | ((table', db'), None) \<Rightarrow> transfer_chunks table' chunks db')"

text \<open>
  \<open>_transfer_table_data\<close>. The opening log line reads the size of the store,
  which can raise. The transfers do not write to the scratch table, so the
  chunks the store yields during the loop are those of the store as it is at
  the start.
\<close>

definition transfer_table_data ::
  "settings \<Rightarrow> stores \<Rightarrow> DBTable \<Rightarrow> databases \<Rightarrow> (DBTable \<times> databases) outcome" where
  "transfer_table_data cfg w table db =
     (case AbstractStorage_len (need_transfer_pks table) w of
        Inl e \<Rightarrow> ((table, db), Some e)
      | Inr n \<Rightarrow>
          (let db1 = db\<lparr>log := log db @
                      [(LOG_INFO, ''start transferring table '' @ quoted (name table)
                          @ '', need to import - '' @ str_nat n)]\<rparr>
           in if primary_key table = None
              then ((table, db1\<lparr>log := log db1 @
                       [(LOG_WARNING, ''table '' @ name table @ '' has no primary key'')]\<rparr>), None)
              else
                (case AbstractStorage_aiter cfg (need_transfer_pks table) w of
                   (chunks, e) \<Rightarrow>
                     (case transfer_chunks table chunks db1 of
                        ((table', db'), Some e') \<Rightarrow> ((table', db'), Some e')
                      | ((table', db'), None) \<Rightarrow>
                          (case e of
                             Some e' \<Rightarrow> ((table', db'), Some e')
                           | None \<Rightarrow>
                               ((table', db'\<lparr>log := log db' @
                                   [(LOG_INFO, ''finished transferring table ''
                                       @ quoted (name table))]\<rparr>), None))))))"

section \<open>Example inputs\<close>

definition example_settings :: settings where
  "example_settings =
     \<lparr> LOG_LEVEL = ''INFO'', LOG_DIRECTORY = [], LOG_FILENAME = [],
       SRC_DB_HOST = ''src'', SRC_DB_PORT = ''5432'', SRC_DB_SCHEMA = ''public'',
       SRC_DB_NAME = ''app'', SRC_DB_USER = ''u'', SRC_DB_PASSWORD = ''p'',
       DST_DB_HOST = ''dst'', DST_DB_PORT = ''5432'', DST_DB_SCHEMA = ''public'',
       DST_DB_NAME = ''app'', DST_DB_USER = ''u'', DST_DB_PASSWORD = ''p'',
       TEST_MODE = False, KEY_TABLE_NAME = ''ent'', KEY_COLUMN_NAMES = [''ent_id''],
       KEY_COLUMN_VALUES = [7], KEY_TABLE_HIERARCHY_COLUMN_NAME = [],
       EXCLUDED_TABLES = [], TABLES_WITH_GENERIC_FOREIGN_KEY = [''generic''],
       TABLES_LIMIT_PER_TRANSACTION = 100, IS_TRUNCATE_TABLES = True,
       TABLES_TRUNCATE_INCLUDED = [], TABLES_TRUNCATE_EXCLUDED = [''keep''],
       FULL_TRANSFER_TABLES = [], VALIDATE_DATA_BEFORE_TRANSFERRING = False,
       USE_DATABASE_FOR_STORE_INTERMEDIATE_VALUES = False,
       COLLECTOR_CHUNK_SIZE = 2, ASYNC_SEPARATION_COEFFICIENT = - 1 \<rparr>"

text \<open>
  An environment that sets every required parameter except
  \<open>DATABASER_SRC_DB_HOST\<close>.
\<close>

definition example_environ :: environ where
  "example_environ =
     [''DATABASER_SRC_DB_PORT'' \<mapsto> ''5432'',
      ''DATABASER_SRC_DB_NAME'' \<mapsto> ''app'',
      ''DATABASER_SRC_DB_USER'' \<mapsto> ''u'',
      ''DATABASER_SRC_DB_PASSWORD'' \<mapsto> ''p'',
      ''DATABASER_DST_DB_HOST'' \<mapsto> ''dst'',
      ''DATABASER_DST_DB_PORT'' \<mapsto> ''5432'',
      ''DATABASER_DST_DB_NAME'' \<mapsto> ''app'',
      ''DATABASER_DST_DB_USER'' \<mapsto> ''u'',
      ''DATABASER_DST_DB_PASSWORD'' \<mapsto> ''p'',
      ''DATABASER_KEY_TABLE_NAME'' \<mapsto> ''ent'',
      ''DATABASER_KEY_COLUMN_NAMES'' \<mapsto> ''ent_id'',
      ''DATABASER_KEY_COLUMN_VALUES'' \<mapsto> ''7, 12'']"

definition example_stores :: stores where
  "example_stores =
     \<lparr> storage_data = Some {|(1, ''5''), (1, ''7''), (2, ''9'')|},
       storages_class = \<lparr>last_group_number = 0, dst_db = True\<rparr>,
       entities_class = \<lparr>last_group_number = 2, dst_db = True\<rparr> \<rparr>"

definition example_column :: "string \<Rightarrow> string \<Rightarrow> ConstraintTypesEnum list \<Rightarrow> DBColumn" where
  "example_column n dt cts =
     \<lparr> column_name = n, table_name = ''doc'', data_type = dt, ordinal_position = 1,
       constraint_table = None, constraint_type = cts \<rparr>"

definition example_table :: DBTable where
  "example_table =
     \<lparr> name = ''doc'', full_count = 0, max_pk = 41,
       columns = [(''day'', example_column ''day'' ''date'' [PRIMARY_KEY]),
                  (''note'', example_column ''note'' ''text'' []),
                  (''id'', example_column ''id'' ''integer'' [PRIMARY_KEY]),
                  (''code'', example_column ''code'' ''text'' [PRIMARY_KEY])],
       is_ready_for_transferring = False, is_checked = False, key_column = None,
       revert_foreign_tables = (\<lambda>_. {}),
       need_transfer_pks = StorageDataTable db_entities_py False 1,
       transferred_pks_count = 0 \<rparr>"

section \<open>Selection of the store implementation\<close>

text \<open>
  Claim C1: every store the program creates, in particular \<open>need_transfer_pks\<close>
  of every \<open>DBTable\<close>, is a \<open>StorageList\<close> when
  \<open>USE_DATABASE_FOR_STORE_INTERMEDIATE_VALUES\<close> is false. The factory
  \<open>create_storage\<close> follows the flag, but \<open>DBTable.__init__\<close> does not call it:
  with the flag false, the store of a new table is still a \<open>StorageDataTable\<close>.
\<close>

theorem C1_table_store_ignores_flag:
  "USE_DATABASE_FOR_STORE_INTERMEDIATE_VALUES example_settings = False
   \<and> fst (create_storage example_settings example_stores) = StorageList {||}
   \<and> need_transfer_pks (fst (DBTable_init ''doc'' example_stores))
       = StorageDataTable db_entities_py False 3"
  by (simp add: example_settings_def example_stores_def create_storage_def StorageList_init_def
      DBTable_init_def StorageDataTable_init_def class_of_def class_update_def)

section \<open>The required-parameter check of settings.py\<close>

lemmas settings_helpers_defs =
  get_str_environ_parameter_def strip_def get_bool_environ_parameter_def
  get_iterable_environ_parameter_def get_extensible_iterable_environ_parameter_def
  get_int_environ_parameter_def try_bind_def py_type_str_def py_int_def isspace_def any_def
  digits_value_def isdigit_def LogLevelEnum_INFO_def Let_def

text \<open>
  Claim C2: an environment in which a required parameter is missing makes the
  import of the settings module raise. The check is \<open>not any([...])\<close>, which
  holds only when all thirteen values are empty: with \<open>DATABASER_SRC_DB_HOST\<close>
  unset and the others given, the module loads, with an empty \<open>SRC_DB_HOST\<close>.
\<close>

theorem C2_settings_load_without_src_host:
  "example_environ ''DATABASER_SRC_DB_HOST'' = None
   \<and> (\<exists>cfg. load_settings example_environ = Inr cfg \<and> SRC_DB_HOST cfg = []
          \<and> KEY_COLUMN_VALUES cfg = [7, 12])"
  by (simp add: load_settings_def example_environ_def settings_helpers_defs)

section \<open>The primary key of a table\<close>

lemma first_filter_find:
  "(case filter P xs of [] \<Rightarrow> None | c # _ \<Rightarrow> Some c) = List.find P xs"
  by (induction xs) auto

text \<open>
  Claim C6: \<open>primary_key\<close> is the first column, in the iteration order of the
  \<open>columns\<close> mapping, that carries \<open>PRIMARY_KEY\<close> and whose data type is not
  \<open>date\<close>; it is \<open>None\<close> exactly when there is no such column.
\<close>

theorem C6_primary_key:
  "(primary_key t = None \<longleftrightarrow>
      (\<forall>c \<in> set (values_of t). \<not> (PRIMARY_KEY \<in> set (constraint_type c) \<and> data_type c \<noteq> ''date'')))
   \<and> (\<forall>c. primary_key t = Some c \<longleftrightarrow>
        (\<exists>i < length (values_of t).
           values_of t ! i = c
           \<and> PRIMARY_KEY \<in> set (constraint_type c) \<and> data_type c \<noteq> ''date''
           \<and> (\<forall>j < i. \<not> (PRIMARY_KEY \<in> set (constraint_type (values_of t ! j))
                           \<and> data_type (values_of t ! j) \<noteq> ''date''))))"
  unfolding primary_key_def first_filter_find
  by (simp add: find_None_iff find_Some_iff) blast

lemma example_primary_key:
  "primary_key example_table = Some (example_column ''id'' ''integer'' [PRIMARY_KEY])"
  by (simp add: primary_key_def example_table_def example_column_def values_of_def)

theorem C6_primary_key_witness:
  "primary_key example_table = Some (example_column ''id'' ''integer'' [PRIMARY_KEY])
   \<and> (\<exists>i < length (values_of example_table).
         values_of example_table ! i = example_column ''id'' ''integer'' [PRIMARY_KEY]
         \<and> (\<forall>j < i. \<not> (PRIMARY_KEY \<in> set (constraint_type (values_of example_table ! j))
                         \<and> data_type (values_of example_table ! j) \<noteq> ''date'')))"
  using C6_primary_key [of example_table] example_primary_key by blast

section \<open>Truncation of destination tables\<close>

text \<open>
  Claim C7: with \<open>IS_TRUNCATE_TABLES\<close> the names handed to the truncate
  queries are \<open>TABLES_TRUNCATE_INCLUDED\<close> if that is not empty, otherwise the
  discovered table names outside \<open>TABLES_WITH_GENERIC_FOREIGN_KEY\<close>, in both
  cases without the names in \<open>TABLES_TRUNCATE_EXCLUDED\<close>; without
  \<open>IS_TRUNCATE_TABLES\<close> no query is sent.
\<close>

theorem C7_truncate_tables:
  "(IS_TRUNCATE_TABLES cfg \<and> (TABLES_TRUNCATE_INCLUDED cfg \<noteq> [] \<or> table_names' \<noteq> None) \<longrightarrow>
      (\<exists>names. truncate_tables cfg table_names' get_truncate_table_queries
                  = Inr (get_truncate_table_queries names)
         \<and> set names =
             (if TABLES_TRUNCATE_INCLUDED cfg \<noteq> [] then set (TABLES_TRUNCATE_INCLUDED cfg)
              else {n \<in> (case table_names' of None \<Rightarrow> {} | Some ns \<Rightarrow> set ns).
                      n \<notin> set (TABLES_WITH_GENERIC_FOREIGN_KEY cfg)})
             - set (TABLES_TRUNCATE_EXCLUDED cfg)))
   \<and> (\<not> IS_TRUNCATE_TABLES cfg \<longrightarrow>
        truncate_tables cfg table_names' get_truncate_table_queries = Inr [])"
  by (auto simp: truncate_tables_def try_bind_def Let_def split: option.splits)

theorem C7_truncate_tables_witness:
  "IS_TRUNCATE_TABLES example_settings
   \<and> (\<exists>names. truncate_tables example_settings (Some [''doc'', ''generic'', ''keep'', ''ent''])
                  (map (\<lambda>n. ''TRUNCATE '' @ n))
                = Inr (map (\<lambda>n. ''TRUNCATE '' @ n) names)
         \<and> set names = {''doc'', ''ent''})
   \<and> \<not> IS_TRUNCATE_TABLES (example_settings\<lparr>IS_TRUNCATE_TABLES := False\<rparr>)
   \<and> truncate_tables (example_settings\<lparr>IS_TRUNCATE_TABLES := False\<rparr>) (Some [''doc''])
        (map (\<lambda>n. ''TRUNCATE '' @ n)) = Inr []"
proof -
  have on: "IS_TRUNCATE_TABLES example_settings"
    and off: "\<not> IS_TRUNCATE_TABLES (example_settings\<lparr>IS_TRUNCATE_TABLES := False\<rparr>)"
    by (simp_all add: example_settings_def)
  have names: "(if TABLES_TRUNCATE_INCLUDED example_settings \<noteq> []
                then set (TABLES_TRUNCATE_INCLUDED example_settings)
                else {n \<in> (case Some [''doc'', ''generic'', ''keep'', ''ent''] of
                             None \<Rightarrow> {} | Some ns \<Rightarrow> set ns).
                        n \<notin> set (TABLES_WITH_GENERIC_FOREIGN_KEY example_settings)})
               - set (TABLES_TRUNCATE_EXCLUDED example_settings) = {''doc'', ''ent''}"
    by (auto simp: example_settings_def)
  from C7_truncate_tables [of example_settings "Some [''doc'', ''generic'', ''keep'', ''ent'']"
      "map (\<lambda>n. ''TRUNCATE '' @ n)"] on
  have "\<exists>names. truncate_tables example_settings (Some [''doc'', ''generic'', ''keep'', ''ent''])
                  (map (\<lambda>n. ''TRUNCATE '' @ n))
                = Inr (map (\<lambda>n. ''TRUNCATE '' @ n) names)
         \<and> set names = {''doc'', ''ent''}"
    unfolding names by simp
  moreover from C7_truncate_tables [of "example_settings\<lparr>IS_TRUNCATE_TABLES := False\<rparr>"
      "Some [''doc'']" "map (\<lambda>n. ''TRUNCATE '' @ n)"] off
  have "truncate_tables (example_settings\<lparr>IS_TRUNCATE_TABLES := False\<rparr>) (Some [''doc''])
        (map (\<lambda>n. ''TRUNCATE '' @ n)) = Inr []"
    by blast
  ultimately show ?thesis using on off by blast
qed

section \<open>Advancing the sequences\<close>

definition example_destination :: destination where
  "example_destination =
     \<lparr> serial_sequence =
         (\<lambda>t c. if t = ''doc'' \<and> c = ''id'' then Some (Some ''doc_id_seq'') else Some None),
       sequence_value = [''doc_id_seq'' \<mapsto> 12, ''other_seq'' \<mapsto> 3] \<rparr>"

text \<open>
  Claim C8: for a table with a primary key and a serial sequence on it,
  \<open>set_max_sequence\<close> sets that sequence to exactly \<open>max_pk + 100000\<close>, hence to
  at least \<open>m + 100000\<close> for every \<open>m\<close> up to \<open>max_pk\<close>, and leaves the other
  sequences alone; for a table without a primary key or without a serial
  sequence nothing changes.
\<close>

theorem C8_set_max_sequence:
  "(\<forall>pk s. primary_key t = Some pk
            \<and> serial_sequence d (name t) (column_name pk) = Some (Some s) \<and> s \<noteq> [] \<longrightarrow>
       sequence_value (fst (set_max_sequence t d)) s = Some (max_pk t + 100000)
       \<and> (\<forall>m \<le> max_pk t. \<exists>v. sequence_value (fst (set_max_sequence t d)) s = Some v
                                 \<and> m + 100000 \<le> v)
       \<and> (\<forall>s'. s' \<noteq> s \<longrightarrow>
             sequence_value (fst (set_max_sequence t d)) s' = sequence_value d s'))
   \<and> (primary_key t = None \<longrightarrow> fst (set_max_sequence t d) = d)
   \<and> (\<forall>pk. primary_key t = Some pk
          \<and> serial_sequence d (name t) (column_name pk) \<notin> {Some (Some s) | s. s \<noteq> []} \<longrightarrow>
        fst (set_max_sequence t d) = d)"
  by (auto simp: set_max_sequence_def Let_def split: option.splits)

theorem C8_set_max_sequence_witness:
  "primary_key example_table = Some (example_column ''id'' ''integer'' [PRIMARY_KEY])
   \<and> serial_sequence example_destination (name example_table) ''id'' = Some (Some ''doc_id_seq'')
   \<and> sequence_value (fst (set_max_sequence example_table example_destination)) ''doc_id_seq''
       = Some 100041
   \<and> sequence_value (fst (set_max_sequence example_table example_destination)) ''other_seq''
       = Some 3
   \<and> primary_key (example_table\<lparr>columns := []\<rparr>) = None
   \<and> fst (set_max_sequence (example_table\<lparr>columns := []\<rparr>) example_destination)
       = example_destination"
proof -
  have seq: "serial_sequence example_destination (name example_table)
               (column_name (example_column ''id'' ''integer'' [PRIMARY_KEY]))
             = Some (Some ''doc_id_seq'')"
    by (simp add: example_destination_def example_table_def example_column_def)
  have none: "primary_key (example_table\<lparr>columns := []\<rparr>) = None"
    by (simp add: primary_key_def values_of_def)
  from C8_set_max_sequence [of example_table example_destination] example_primary_key seq
  have "sequence_value (fst (set_max_sequence example_table example_destination)) ''doc_id_seq''
          = Some (max_pk example_table + 100000)"
    and "sequence_value (fst (set_max_sequence example_table example_destination)) ''other_seq''
          = sequence_value example_destination ''other_seq''"
    by auto
  moreover from C8_set_max_sequence [of "example_table\<lparr>columns := []\<rparr>" example_destination] none
  have "fst (set_max_sequence (example_table\<lparr>columns := []\<rparr>) example_destination)
          = example_destination"
    by blast
  ultimately show ?thesis
    using example_primary_key seq none
    by (simp add: example_table_def example_destination_def example_column_def)
qed

section \<open>Transfer of a table without primary key\<close>

definition example_databases :: databases where
  "example_databases =
     \<lparr> src_rows = (\<lambda>t. if t = ''doc'' then {|''5'', ''7''|} else {||}),
       dst_rows = (\<lambda>t. if t = ''doc'' then {|''5''|} else {||}),
       shape_error = (\<lambda>_. False),
       issued = [],
       log = [] \<rparr>"

text \<open>
  Claim C9: for a table whose \<open>primary_key\<close> is \<open>None\<close>, \<open>_transfer_table_data\<close>
  issues no transfer statement and leaves \<open>transferred_pks_count\<close> and the
  destination rows as they are; once the opening log line has read the size
  of the store, it logs the warning and returns normally. Should reading the
  size raise, that exception leaves the method, again with nothing changed.
\<close>

theorem C9_transfer_without_primary_key:
  "primary_key table = None \<longrightarrow>
     (case transfer_table_data cfg w table db of
        ((table', db'), e) \<Rightarrow>
          issued db' = issued db \<and> dst_rows db' = dst_rows db
          \<and> transferred_pks_count table' = transferred_pks_count table
          \<and> (\<forall>n. AbstractStorage_len (need_transfer_pks table) w = Inr n \<longrightarrow>
                e = None
                \<and> (LOG_WARNING, ''table '' @ name table @ '' has no primary key'') \<in> set (log db'))
          \<and> (\<forall>err. AbstractStorage_len (need_transfer_pks table) w = Inl err \<longrightarrow>
                e = Some err \<and> db' = db))"
  by (auto simp: transfer_table_data_def Let_def split: sum.splits)

theorem C9_transfer_without_primary_key_witness:
  "primary_key (example_table\<lparr>columns := []\<rparr>) = None
   \<and> AbstractStorage_len (need_transfer_pks (example_table\<lparr>columns := []\<rparr>)) example_stores = Inr 2
   \<and> (case transfer_table_data example_settings example_stores (example_table\<lparr>columns := []\<rparr>)
             example_databases of
        ((table', db'), e) \<Rightarrow>
          issued db' = [] \<and> dst_rows db' ''doc'' = {|''5''|} \<and> transferred_pks_count table' = 0
          \<and> e = None \<and> (LOG_WARNING, ''table doc has no primary key'') \<in> set (log db'))"
proof -
  have none: "primary_key (example_table\<lparr>columns := []\<rparr>) = None"
    by (simp add: primary_key_def values_of_def)
  have len: "AbstractStorage_len (need_transfer_pks (example_table\<lparr>columns := []\<rparr>)) example_stores
               = Inr 2"
    by code_simp
  from C9_transfer_without_primary_key [where table = "example_table\<lparr>columns := []\<rparr>"
      and cfg = example_settings and w = example_stores and db = example_databases] none len
  show ?thesis
    by (auto simp: example_table_def example_databases_def split: prod.splits)
qed

section \<open>A store after delete\<close>

lemma make_chunks_Nil: "make_chunks [] chunk_size = ([], None)"
  by (subst make_chunks.simps) simp

lemma get_iter_Nil: "fst (get_iter [] chunk_size step) = []"
  by (subst get_iter.simps) (simp add: LIMIT_OFFSET_SQL_def)

lemma sorted_list_of_fset_empty: "sorted_list_of_fset {||} = []"
  by (simp add: sorted_list_of_fset.rep_eq)

lemma group_DELETE: "ffilter (\<lambda>r. fst r = g) (DELETE_DATA_SQL g rows) = {||}"
  by (auto simp: DELETE_DATA_SQL_def)

lemma ALL_DATA_SQL_DELETE: "ALL_DATA_SQL g (DELETE_DATA_SQL g rows) = []"
  by (simp add: ALL_DATA_SQL_def group_DELETE sorted_list_of_fset_empty)

text \<open>
  Claim C10: for both store classes of storages.py, once \<open>delete\<close> has
  completed, \<open>len\<close> returns 0, \<open>is_not_empty\<close> returns false (the cached
  positive answer of the table-backed store has been reset, and stays reset),
  and iterating yields no chunk.
\<close>

theorem C10_empty_after_delete:
  assumes "self = StorageList s \<or> self = StorageDataTable storages_py hv g"
    and "AbstractStorage_delete self w = Inr (self', w')"
  shows "AbstractStorage_len self' w' = Inr 0
    \<and> AbstractStorage_is_not_empty self' w' = Inr (False, self')
    \<and> fst (AbstractStorage_aiter cfg self' w') = []"
  using assms(1)
proof
  assume "self = StorageList s"
  with assms(2) have "self' = StorageList {||}"
    by (simp add: AbstractStorage_delete_def StorageList_delete_def)
  then show ?thesis
    by (simp add: AbstractStorage_len_def AbstractStorage_is_not_empty_def AbstractStorage_aiter_def
        StorageList_len_def StorageList_is_not_empty_def StorageList_aiter_def
        sorted_list_of_fset_empty make_chunks_Nil)
next
  assume self: "self = StorageDataTable storages_py hv g"
  with assms(2) obtain rows where ok: "dst_db (storages_class w)"
    and rows: "storage_data w = Some rows"
    and self': "self' = StorageDataTable storages_py False g"
    and w': "w' = w\<lparr>storage_data := Some (DELETE_DATA_SQL g rows)\<rparr>"
    by (auto simp: AbstractStorage_delete_def StorageDataTable_delete_def try_bind_def table_of_def
        class_of_def split: sum.splits if_splits option.splits)
  have tab: "table_of storages_py w' = Inr (DELETE_DATA_SQL g rows)"
    using ok by (simp add: w' table_of_def class_of_def)
  show ?thesis
    by (simp add: self' AbstractStorage_len_def AbstractStorage_is_not_empty_def
        AbstractStorage_aiter_def StorageDataTable_len_def StorageDataTable_is_not_empty_def
        StorageDataTable_aiter_def tab try_bind_def COUNT_DATA_SQL_def IS_EXIST_DATA_SQL_def
        group_DELETE ALL_DATA_SQL_DELETE get_iter_Nil)
qed

definition example_storages_stores :: stores where
  "example_storages_stores =
     \<lparr> storage_data = Some {|(1, ''5''), (1, ''7''), (2, ''9'')|},
       storages_class = \<lparr>last_group_number = 2, dst_db = True\<rparr>,
       entities_class = \<lparr>last_group_number = 0, dst_db = False\<rparr> \<rparr>"

theorem C10_empty_after_delete_witness:
  "AbstractStorage_delete (StorageDataTable storages_py True 1) example_storages_stores
     = Inr (StorageDataTable storages_py False 1,
            example_storages_stores\<lparr>storage_data := Some {|(2, ''9'')|}\<rparr>)
   \<and> AbstractStorage_len (StorageDataTable storages_py False 1)
        (example_storages_stores\<lparr>storage_data := Some {|(2, ''9'')|}\<rparr>) = Inr 0
   \<and> AbstractStorage_is_not_empty (StorageDataTable storages_py False 1)
        (example_storages_stores\<lparr>storage_data := Some {|(2, ''9'')|}\<rparr>)
       = Inr (False, StorageDataTable storages_py False 1)
   \<and> fst (AbstractStorage_aiter example_settings (StorageDataTable storages_py False 1)
        (example_storages_stores\<lparr>storage_data := Some {|(2, ''9'')|}\<rparr>)) = []
   \<and> AbstractStorage_delete (StorageList {|''5''|}) example_storages_stores
       = Inr (StorageList {||}, example_storages_stores)
   \<and> AbstractStorage_len (StorageList {||}) example_storages_stores = Inr 0"
proof -
  have del: "AbstractStorage_delete (StorageDataTable storages_py True 1) example_storages_stores
     = Inr (StorageDataTable storages_py False 1,
            example_storages_stores\<lparr>storage_data := Some {|(2, ''9'')|}\<rparr>)"
    by (auto simp: AbstractStorage_delete_def StorageDataTable_delete_def try_bind_def table_of_def
        class_of_def example_storages_stores_def DELETE_DATA_SQL_def)
  have del': "AbstractStorage_delete (StorageList {|''5''|}) example_storages_stores
       = Inr (StorageList {||}, example_storages_stores)"
    by (simp add: AbstractStorage_delete_def StorageList_delete_def)
  from C10_empty_after_delete [OF _ del, of "{||}" True 1 example_settings]
    C10_empty_after_delete [OF _ del', of "{|''5''|}" True 1 example_settings] del del'
  show ?thesis by simp
qed

section \<open>Growth of need\_transfer\_pks\<close>

text \<open>
  The operations that write to the store of a table during collection, and a
  run of them: after an operation that raised, the state is the one reached
  when it raised. \<open>pending\<close> is the set of identifiers held by the table's
  store.
\<close>


datatype store_op =
    Insert "pk list"
  | Add_storage_data storage
  | Update_need_transfer_pks need_transfer_pks_arg

definition apply_op :: "settings \<Rightarrow> DBTable \<times> stores \<Rightarrow> store_op \<Rightarrow> DBTable \<times> stores" where
  "apply_op cfg s op =
     (case s of (table, w) \<Rightarrow>
        (case op of
           Insert data \<Rightarrow>
             (case AbstractStorage_insert (need_transfer_pks table) data w of
                ((store, w'), e) \<Rightarrow> (table\<lparr>need_transfer_pks := store\<rparr>, w'))
         | Add_storage_data other \<Rightarrow>
             (case AbstractStorage_add_storage_data cfg (need_transfer_pks table) other w of
                ((store, w'), e) \<Rightarrow> (table\<lparr>need_transfer_pks := store\<rparr>, w'))
         | Update_need_transfer_pks arg \<Rightarrow> fst (update_need_transfer_pks cfg table arg w)))"

definition pending :: "DBTable \<times> stores \<Rightarrow> string fset" where
  "pending s = stored (need_transfer_pks (fst s)) (snd s)"

definition grows :: "stores \<Rightarrow> stores \<Rightarrow> bool" where
  "grows w w' =
     (case storage_data w of
        None \<Rightarrow> True
      | Some rows \<Rightarrow> (\<exists>rows'. storage_data w' = Some rows' \<and> rows |\<subseteq>| rows'))"

lemma grows_refl: "grows w w"
  by (simp add: grows_def split: option.splits)

lemma grows_trans: "grows w w' \<Longrightarrow> grows w' w'' \<Longrightarrow> grows w w''"
  by (fastforce simp: grows_def split: option.splits)

lemma insert_grows: "StorageDataTable_insert m g data w = Inr w' \<Longrightarrow> grows w w'"
  by (auto simp: StorageDataTable_insert_def INSERT_DATA_SQL_def try_bind_def table_of_def grows_def
      split: if_splits sum.splits option.splits)

lemma add_pages_grows: "grows w (fst (add_pages m g m' g' chunk_size step w))"
proof (induction m g m' g' chunk_size step w rule: add_pages.induct)
  case (1 m g m' g' chunk_size step w)
  show ?case
  proof (cases "try_bind (table_of m' w) (\<lambda>rows. LIMIT_OFFSET_SQL chunk_size step (ALL_DATA_SQL g' rows))")
    case (Inl e)
    then show ?thesis by (subst add_pages.simps) (simp add: grows_refl)
  next
    case (Inr data)
    show ?thesis
    proof (cases "data = []")
      case True
      with Inr show ?thesis by (subst add_pages.simps) (simp add: grows_refl)
    next
      case False
      show ?thesis
      proof (cases "StorageDataTable_insert m g (map PkStr data) w")
        case (Inl e)
        with Inr False show ?thesis by (subst add_pages.simps) (simp add: grows_refl)
      next
        case ins: (Inr w')
        from "1.IH" [OF Inr False ins] insert_grows [OF ins]
        have "grows w (fst (add_pages m g m' g' chunk_size (step + 1) w'))"
          by (blast intro: grows_trans)
        with Inr False ins show ?thesis by (subst add_pages.simps) simp
      qed
    qed
  qed
qed

lemma insert_chunks_grows: "grows w (fst (insert_chunks m g chunks w))"
proof (induction chunks arbitrary: w)
  case Nil
  show ?case by (simp add: grows_refl)
next
  case (Cons chunk chunks)
  show ?case
  proof (cases "StorageDataTable_insert m g (map PkStr chunk) w")
    case (Inl e)
    then show ?thesis by (simp add: grows_refl)
  next
    case (Inr w')
    with Cons.IH [of w'] insert_grows [OF Inr] show ?thesis
      by (auto intro: grows_trans)
  qed
qed

lemma StorageDataTable_add_storage_data_grows:
  "grows w (fst (StorageDataTable_add_storage_data cfg m g other w))"
proof (cases other)
  case (StorageDataTable m' h' g')
  then show ?thesis
    by (simp add: StorageDataTable_add_storage_data_def add_pages_grows)
next
  case (StorageList s)
  obtain chunks e where a: "StorageList_aiter cfg s = (chunks, e)"
    by (cases "StorageList_aiter cfg s")
  obtain w' e' where b: "insert_chunks m g chunks w = (w', e')"
    by (cases "insert_chunks m g chunks w")
  from insert_chunks_grows [of w m g chunks] b have "grows w w'" by simp
  with StorageList a b show ?thesis
    by (simp add: StorageDataTable_add_storage_data_def split: option.splits)
qed

lemma stored_mono: "grows w w' \<Longrightarrow> stored s w |\<subseteq>| stored s w'"
  by (cases s) (force simp: stored_def grows_def image_iff split: option.splits)+

lemma AbstractStorage_insert_mono:
  "AbstractStorage_insert self data w = ((self', w'), e) \<Longrightarrow> stored self w |\<subseteq>| stored self' w'"
proof (cases self)
  case (StorageDataTable m h g)
  assume "AbstractStorage_insert self data w = ((self', w'), e)"
  with StorageDataTable have "self' = self" and "grows w w'"
    by (auto simp: AbstractStorage_insert_def grows_refl insert_grows split: sum.splits)
  then show ?thesis by (simp add: stored_mono)
next
  case (StorageList s)
  assume "AbstractStorage_insert self data w = ((self', w'), e)"
  with StorageList show ?thesis
    by (auto simp: AbstractStorage_insert_def StorageList_insert_def stored_def)
qed

lemma AbstractStorage_add_storage_data_mono:
  "AbstractStorage_add_storage_data cfg self other w = ((self', w'), e)
     \<Longrightarrow> stored self w |\<subseteq>| stored self' w'"
proof (cases self)
  case (StorageDataTable m h g)
  assume a: "AbstractStorage_add_storage_data cfg self other w = ((self', w'), e)"
  from StorageDataTable_add_storage_data_grows [of w cfg m g other] a StorageDataTable
  have "self' = self" and "grows w w'"
    by (auto simp: AbstractStorage_add_storage_data_def split: prod.splits)
  then show ?thesis by (simp add: stored_mono)
next
  case (StorageList s)
  assume "AbstractStorage_add_storage_data cfg self other w = ((self', w'), e)"
  with StorageList show ?thesis
    by (auto simp: AbstractStorage_add_storage_data_def StorageList_add_storage_data_def stored_def
        split: storage.splits)
qed

lemma update_need_transfer_pks_mono:
  "pending (t, w) |\<subseteq>| pending (fst (update_need_transfer_pks cfg t arg w))"
proof -
  obtain store w' e where r:
    "(case arg of
        Store (StorageDataTable db_entities_py hv g) \<Rightarrow>
          AbstractStorage_add_storage_data cfg (need_transfer_pks t)
            (StorageDataTable db_entities_py hv g) w
      | Store _ \<Rightarrow> ((need_transfer_pks t, w), Some TypeError)
      | Pks data \<Rightarrow> AbstractStorage_insert (need_transfer_pks t) data w) = ((store, w'), e)"
    by (metis surj_pair)
  then have "stored (need_transfer_pks t) w |\<subseteq>| stored store w'"
    by (auto split: need_transfer_pks_arg.splits storage.splits module.splits
        dest: AbstractStorage_add_storage_data_mono AbstractStorage_insert_mono)
  with r show ?thesis
    by (simp add: update_need_transfer_pks_def pending_def)
qed

lemma apply_op_mono: "pending s |\<subseteq>| pending (apply_op cfg s op)"
proof (cases s)
  case (Pair t w)
  show ?thesis
  proof (cases op)
    case (Insert data)
    obtain store w' e where "AbstractStorage_insert (need_transfer_pks t) data w = ((store, w'), e)"
      by (metis surj_pair)
    with Pair Insert show ?thesis
      by (auto simp: apply_op_def pending_def dest: AbstractStorage_insert_mono)
  next
    case (Add_storage_data other)
    obtain store w' e where
      "AbstractStorage_add_storage_data cfg (need_transfer_pks t) other w = ((store, w'), e)"
      by (metis surj_pair)
    with Pair Add_storage_data show ?thesis
      by (auto simp: apply_op_def pending_def dest: AbstractStorage_add_storage_data_mono)
  next
    case (Update_need_transfer_pks arg)
    with Pair show ?thesis
      using update_need_transfer_pks_mono [of t w cfg arg] by (simp add: apply_op_def)
  qed
qed

lemma foldl_apply_op_mono: "pending s |\<subseteq>| pending (foldl (apply_op cfg) s ops)"
proof (induction ops arbitrary: s)
  case Nil
  show ?case by simp
next
  case (Cons op ops)
  from apply_op_mono [of s cfg op] Cons.IH [of "apply_op cfg s op"] show ?case
    by auto
qed

text \<open>
  Claim C5: every \<open>update_need_transfer_pks\<close>, \<open>insert\<close> and
  \<open>add_storage_data\<close> on the store of a table leaves a superset of the
  identifiers held before, at every point of every sequence of such
  operations, so the size of the store never decreases.
\<close>

theorem C5_need_transfer_pks_monotone:
  "pending s |\<subseteq>| pending (apply_op cfg s op)
   \<and> fcard (pending s) \<le> fcard (pending (apply_op cfg s op))
   \<and> pending (foldl (apply_op cfg) s ops)
        |\<subseteq>| pending (foldl (apply_op cfg) s (ops @ [op]))
   \<and> fcard (pending (foldl (apply_op cfg) s ops))
        \<le> fcard (pending (foldl (apply_op cfg) s (ops @ [op])))"
  by (simp add: apply_op_mono fcard_mono)

theorem C5_need_transfer_pks_monotone_witness:
  "pending (example_table, example_stores) = {|''5'', ''7''|}
   \<and> pending (apply_op example_settings (example_table, example_stores)
                (Update_need_transfer_pks (Pks [PkInt 7, PkInt 8]))) = {|''5'', ''7'', ''8''|}
   \<and> pending (example_table, example_stores)
        |\<subseteq>| pending (apply_op example_settings (example_table, example_stores)
                       (Update_need_transfer_pks (Pks [PkInt 7, PkInt 8])))
   \<and> fcard (pending (example_table, example_stores))
        \<le> fcard (pending (apply_op example_settings (example_table, example_stores)
                            (Update_need_transfer_pks (Pks [PkInt 7, PkInt 8]))))"
proof -
  have before: "pending (example_table, example_stores) = {|''5'', ''7''|}"
    by code_simp
  have after: "pending (apply_op example_settings (example_table, example_stores)
                (Update_need_transfer_pks (Pks [PkInt 7, PkInt 8]))) = {|''5'', ''7'', ''8''|}"
    by code_simp
  from C5_need_transfer_pks_monotone [of "(example_table, example_stores)" example_settings
      "Update_need_transfer_pks (Pks [PkInt 7, PkInt 8])" "[]"] before after
  show ?thesis by simp
qed

section \<open>The foreign-key edges after introspection\<close>

text \<open>
  \<open>fk_edges_ok\<close> is the invariant: every foreign-key column of every table
  has a referent, the referent is a table of the schema, and the referent
  lists the column in \<open>revert_foreign_tables\<close> under the column's table.
  \<open>heap_ok\<close> says that tables sit under their names and columns under
  theirs; \<open>memo_ok\<close> that every memoised answer of \<open>is_foreign_key\<close> is the
  one the column gives now; \<open>edges_ok\<close> is \<open>fk_edges_ok\<close> by column name.
\<close>

definition fk_edges_ok :: "heap \<Rightarrow> bool" where
  "fk_edges_ok h =
     (\<forall>tn t. h tn = Some t \<longrightarrow>
        (\<forall>c \<in> set (values_of t). is_foreign_key c \<longrightarrow>
           (\<exists>rn r. constraint_table c = Some rn \<and> h rn = Some r
                   \<and> column_name c \<in> revert_foreign_tables r (name t))))"

definition heap_ok :: "heap \<Rightarrow> bool" where
  "heap_ok h =
     (\<forall>tn t. h tn = Some t \<longrightarrow>
        name t = tn \<and> distinct (map fst (columns t))
        \<and> (\<forall>cn c. map_of (columns t) cn = Some c \<longrightarrow> column_name c = cn \<and> table_name c = tn))"

definition memo_ok :: "heap \<Rightarrow> memo \<Rightarrow> bool" where
  "memo_ok h mm =
     (\<forall>tn cn v. ((tn, cn), v) \<in> set (is_foreign_key_cache mm) \<longrightarrow>
        (\<exists>t c. h tn = Some t \<and> map_of (columns t) cn = Some c \<and> v = is_foreign_key c))"

definition edges_ok :: "heap \<Rightarrow> bool" where
  "edges_ok h =
     (\<forall>tn t cn c. h tn = Some t \<longrightarrow> map_of (columns t) cn = Some c \<longrightarrow> is_foreign_key c \<longrightarrow>
        (\<exists>rn r. constraint_table c = Some rn \<and> h rn = Some r
                \<and> column_name c \<in> revert_foreign_tables r (name t)))"

definition introspection_ok :: "heap \<times> memo \<Rightarrow> bool" where
  "introspection_ok s = (heap_ok (fst s) \<and> memo_ok (fst s) (snd s) \<and> edges_ok (fst s))"

lemma edges_ok_fk_edges_ok:
  assumes "heap_ok h" and "edges_ok h"
  shows "fk_edges_ok h"
  unfolding fk_edges_ok_def
proof (intro allI impI ballI)
  fix tn t c
  assume t: "h tn = Some t" and c: "c \<in> set (values_of t)" and fk: "is_foreign_key c"
  from c obtain cn where "(cn, c) \<in> set (columns t)"
    by (auto simp: values_of_def)
  moreover from assms(1) t have "distinct (map fst (columns t))"
    by (simp add: heap_ok_def)
  ultimately have "map_of (columns t) cn = Some c" by simp
  with assms(2) t fk show "\<exists>rn r. constraint_table c = Some rn \<and> h rn = Some r
      \<and> column_name c \<in> revert_foreign_tables r (name t)"
    unfolding edges_ok_def by blast
qed

text \<open>The store phase.\<close>

lemma append_column_store_Inr:
  assumes "append_column_store t cn dt pos ctab ctyp mm = Inr (col, t1, mm1)"
    and "\<forall>c0. map_of (columns t) cn = Some c0 \<longrightarrow> column_name c0 = cn \<and> table_name c0 = name t"
  shows "t1 = t\<lparr>columns := AList.update cn col (columns t)\<rparr>"
    and "column_name col = cn" and "table_name col = name t"
    and "is_key_column_cache mm1 = is_key_column_cache mm"
    and "is_foreign_key_cache mm1 = [] \<or>
         (is_foreign_key_cache mm1 = is_foreign_key_cache mm
          \<and> (\<forall>c0. map_of (columns t) cn = Some c0 \<longrightarrow> is_foreign_key col = is_foreign_key c0))"
  using assms
  by (auto simp: append_column_store_def DBColumn_init_def try_bind_def Let_def is_foreign_key_def
      update_triv
      split: option.splits if_splits)

lemma append_column_key_eq:
  assumes "append_column_key cfg col t1 mm1 = (t2, mm2)"
  shows "columns t2 = columns t1" and "name t2 = name t1"
    and "revert_foreign_tables t2 = revert_foreign_tables t1"
    and "is_foreign_key_cache mm2 = is_foreign_key_cache mm1"
  using assms
  by (auto simp: append_column_key_def split: if_splits prod.splits)

lemma lru_cache_set:
  assumes "lru_cache k x cache = (v, cache')"
  shows "set cache' \<subseteq> insert (k, v) (set cache)"
    and "map_of cache k = None \<Longrightarrow> v = x"
    and "map_of cache k = Some y \<Longrightarrow> v = y"
  using assms
  by (auto simp: lru_cache_def split: option.splits dest: in_set_takeD)

lemma append_column_link_Inr:
  assumes "append_column_link col t2 h2 mm2 = Inr (h', mm')"
  shows "\<exists>v. lru_cache (key_of col) (is_foreign_key col) (is_foreign_key_cache mm2)
                     = (v, is_foreign_key_cache mm')
    \<and> (\<not> v \<longrightarrow> h' = h2)
    \<and> (v \<longrightarrow> (\<exists>rn r. constraint_table col = Some rn \<and> h2 rn = Some r
            \<and> h' = h2(rn \<mapsto> r\<lparr>revert_foreign_tables :=
                  (revert_foreign_tables r)
                    (name t2 := insert (column_name col) (revert_foreign_tables r (name t2)))\<rparr>)))"
  using assms
  by (auto simp: append_column_link_def referent_def split: prod.splits if_splits sum.splits option.splits)

definition edge_ok :: "heap \<Rightarrow> string \<Rightarrow> DBColumn \<Rightarrow> bool" where
  "edge_ok h tname c =
     (\<exists>rn r. constraint_table c = Some rn \<and> h rn = Some r
             \<and> column_name c \<in> revert_foreign_tables r tname)"

lemma edges_ok_edge_ok:
  "edges_ok h = (\<forall>tn t cn c. h tn = Some t \<longrightarrow> map_of (columns t) cn = Some c \<longrightarrow>
                   is_foreign_key c \<longrightarrow> edge_ok h (name t) c)"
  by (simp add: edges_ok_def edge_ok_def)

lemma edge_ok_upd:
  assumes "edge_ok h tname c" and "h rn = Some r"
    and "\<And>x. revert_foreign_tables r x \<subseteq> revert_foreign_tables r' x"
  shows "edge_ok (h(rn \<mapsto> r')) tname c"
proof -
  from assms(1) obtain qn q where q: "constraint_table c = Some qn" "h qn = Some q"
    "column_name c \<in> revert_foreign_tables q tname"
    by (auto simp: edge_ok_def)
  show ?thesis
  proof (cases "qn = rn")
    case True
    with q assms(2,3) have "column_name c \<in> revert_foreign_tables r' tname" by auto
    with q True show ?thesis by (auto simp: edge_ok_def)
  next
    case False
    with q show ?thesis by (auto simp: edge_ok_def)
  qed
qed

lemma append_column_preserves:
  assumes ok: "introspection_ok (h, mm)"
    and run: "append_column cfg self cn dt pos ctab ctyp (h, mm) = Inr (h', mm')"
  shows "introspection_ok (h', mm')" and "dom h' = dom h"
proof -
  from ok have hok: "heap_ok h" and mok: "memo_ok h mm" and eok: "edges_ok h"
    by (simp_all add: introspection_ok_def)
  from run obtain t where t: "h self = Some t"
    by (auto simp: append_column_def split: option.splits)
  with run obtain col t1 mm1 t2 mm2 where
    store: "append_column_store t cn dt pos ctab ctyp mm = Inr (col, t1, mm1)"
    and key: "append_column_key cfg col t1 mm1 = (t2, mm2)"
    and link: "append_column_link col t2 (h(self \<mapsto> t2)) mm2 = Inr (h', mm')"
    by (auto simp: append_column_def try_bind_def split: sum.splits prod.splits)
  from hok t have nt: "name t = self" and dist: "distinct (map fst (columns t))"
    and cols: "\<And>cn' c. map_of (columns t) cn' = Some c \<Longrightarrow> column_name c = cn' \<and> table_name c = self"
    by (auto simp: heap_ok_def)
  from cols nt have pre: "\<forall>c0. map_of (columns t) cn = Some c0 \<longrightarrow> column_name c0 = cn \<and> table_name c0 = name t"
    by simp
  note st = append_column_store_Inr [OF store pre]
  note ky = append_column_key_eq [OF key]
  have cols2: "columns t2 = AList.update cn col (columns t)"
    and nt2: "name t2 = self" and rev2: "revert_foreign_tables t2 = revert_foreign_tables t"
    using st(1) ky nt by simp_all
  have mapof2: "map_of (columns t2) = (map_of (columns t))(cn \<mapsto> col)"
    by (simp add: cols2 update_conv')
  have keycol: "key_of col = (self, cn)"
    using st(2,3) nt by (simp add: key_of_def)
  define h2 where "h2 = h(self \<mapsto> t2)"
  text \<open>The heap with the table written back.\<close>
  have hok2: "heap_ok h2"
    unfolding heap_ok_def
  proof (intro allI impI)
    fix tn' t' assume a: "h2 tn' = Some t'"
    show "name t' = tn' \<and> distinct (map fst (columns t'))
        \<and> (\<forall>cn c. map_of (columns t') cn = Some c \<longrightarrow> column_name c = cn \<and> table_name c = tn')"
    proof (cases "tn' = self")
      case True
      with a have "t' = t2" by (simp add: h2_def)
      then show ?thesis
        using True nt2 dist cols st(2,3) nt
        by (auto simp: cols2 distinct_update update_conv' split: if_splits)
    next
      case False
      with a have "h tn' = Some t'" by (simp add: h2_def)
      with hok show ?thesis unfolding heap_ok_def by blast
    qed
  qed
  have memo2: "\<And>tn' cn' y. ((tn', cn'), y) \<in> set (is_foreign_key_cache mm2) \<Longrightarrow>
      \<exists>t' c'. h2 tn' = Some t' \<and> map_of (columns t') cn' = Some c' \<and> y = is_foreign_key c'"
  proof -
    fix tn' cn' y assume a: "((tn', cn'), y) \<in> set (is_foreign_key_cache mm2)"
    with ky(4) st(5) have same: "is_foreign_key_cache mm1 = is_foreign_key_cache mm"
      and fk: "\<forall>c0. map_of (columns t) cn = Some c0 \<longrightarrow> is_foreign_key col = is_foreign_key c0"
      by auto
    from a ky(4) same mok obtain t' c' where b: "h tn' = Some t'" "map_of (columns t') cn' = Some c'"
      "y = is_foreign_key c'"
      unfolding memo_ok_def by metis
    show "\<exists>t' c'. h2 tn' = Some t' \<and> map_of (columns t') cn' = Some c' \<and> y = is_foreign_key c'"
    proof (cases "tn' = self")
      case True
      with b t have "t' = t" by simp
      with b fk True show ?thesis
        by (cases "cn' = cn") (auto simp: h2_def mapof2)
    next
      case False
      with b show ?thesis by (auto simp: h2_def)
    qed
  qed
  have edges2: "\<And>tn' t' cn' c. h2 tn' = Some t' \<Longrightarrow> map_of (columns t') cn' = Some c \<Longrightarrow>
      is_foreign_key c \<Longrightarrow> (tn', cn') \<noteq> (self, cn) \<Longrightarrow> edge_ok h2 (name t') c"
  proof -
    fix tn' t' cn' c
    assume a: "h2 tn' = Some t'" "map_of (columns t') cn' = Some c" "is_foreign_key c"
      "(tn', cn') \<noteq> (self, cn)"
    have "\<exists>t0. h tn' = Some t0 \<and> map_of (columns t0) cn' = Some c \<and> name t0 = name t'"
    proof (cases "tn' = self")
      case True
      with a have "t' = t2" "cn' \<noteq> cn" by (auto simp: h2_def)
      with a t True nt nt2 show ?thesis by (auto simp: mapof2)
    next
      case False
      with a show ?thesis by (auto simp: h2_def)
    qed
    then obtain t0 where t0: "h tn' = Some t0" "map_of (columns t0) cn' = Some c" "name t0 = name t'"
      by blast
    with eok a(3) have "edge_ok h (name t') c"
      unfolding edges_ok_edge_ok by metis
    then have "edge_ok (h(self \<mapsto> t2)) (name t') c"
      using t by (rule edge_ok_upd) (simp add: rev2)
    then show "edge_ok h2 (name t') c" by (simp add: h2_def)
  qed
  text \<open>The answer of the memoised \<open>is_foreign_key\<close> is the true one.\<close>
  from link have link': "append_column_link col t2 h2 mm2 = Inr (h', mm')"
    by (simp add: h2_def)
  from append_column_link_Inr [OF link'] obtain v where
    lru: "lru_cache (key_of col) (is_foreign_key col) (is_foreign_key_cache mm2)
            = (v, is_foreign_key_cache mm')"
    and no: "\<not> v \<Longrightarrow> h' = h2"
    and yes: "v \<Longrightarrow> \<exists>rn r. constraint_table col = Some rn \<and> h2 rn = Some r
            \<and> h' = h2(rn \<mapsto> r\<lparr>revert_foreign_tables :=
                  (revert_foreign_tables r)
                    (name t2 := insert (column_name col) (revert_foreign_tables r (name t2)))\<rparr>)"
    by blast
  have v: "v = is_foreign_key col"
  proof (cases "map_of (is_foreign_key_cache mm2) (key_of col)")
    case None
    with lru show ?thesis by (simp add: lru_cache_set(2))
  next
    case (Some y)
    then have "((self, cn), y) \<in> set (is_foreign_key_cache mm2)"
      by (auto simp: keycol dest: map_of_SomeD)
    from memo2 [OF this] have "y = is_foreign_key col"
      by (auto simp: h2_def mapof2)
    with lru Some show ?thesis by (simp add: lru_cache_set(3))
  qed
  have new_entry: "h2 self = Some t2" "map_of (columns t2) cn = Some col"
    by (simp_all add: h2_def mapof2)
  have memo': "\<And>tn' cn' y. ((tn', cn'), y) \<in> set (is_foreign_key_cache mm') \<Longrightarrow>
      \<exists>t' c'. h2 tn' = Some t' \<and> map_of (columns t') cn' = Some c' \<and> y = is_foreign_key c'"
  proof -
    fix tn' cn' y assume "((tn', cn'), y) \<in> set (is_foreign_key_cache mm')"
    with lru_cache_set(1) [OF lru]
    have "((tn', cn'), y) = (key_of col, v) \<or> ((tn', cn'), y) \<in> set (is_foreign_key_cache mm2)"
      by auto
    then show "\<exists>t' c'. h2 tn' = Some t' \<and> map_of (columns t') cn' = Some c' \<and> y = is_foreign_key c'"
      using new_entry v memo2 by (auto simp: keycol)
  qed
  show "introspection_ok (h', mm')" and "dom h' = dom h"
  proof -
    have "introspection_ok (h', mm') \<and> dom h' = dom h"
    proof (cases v)
      case False
      with no have h': "h' = h2" by simp
      have "edges_ok h2"
        unfolding edges_ok_edge_ok
      proof (intro allI impI)
        fix tn' t' cn' c
        assume a: "h2 tn' = Some t'" "map_of (columns t') cn' = Some c" "is_foreign_key c"
        have "(tn', cn') \<noteq> (self, cn)"
        proof
          assume "(tn', cn') = (self, cn)"
          with a new_entry have "c = col" by simp
          with a(3) v False show False by simp
        qed
        with a show "edge_ok h2 (name t') c" by (rule edges2)
      qed
      moreover have "memo_ok h2 mm'"
        unfolding memo_ok_def using memo' by blast
      moreover have "dom h2 = dom h"
        using t by (auto simp: h2_def)
      ultimately show ?thesis
        using hok2 by (simp add: h' introspection_ok_def)
    next
      case True
      from yes [OF True] obtain rn r where r: "constraint_table col = Some rn" "h2 rn = Some r"
        and h': "h' = h2(rn \<mapsto> r\<lparr>revert_foreign_tables :=
                  (revert_foreign_tables r)
                    (name t2 := insert (column_name col) (revert_foreign_tables r (name t2)))\<rparr>)"
        by blast
      define r' where "r' = r\<lparr>revert_foreign_tables :=
                  (revert_foreign_tables r)
                    (name t2 := insert (column_name col) (revert_foreign_tables r (name t2)))\<rparr>"
      have h'': "h' = h2(rn \<mapsto> r')" by (simp add: h' r'_def)
      have r'_eq: "name r' = name r" "columns r' = columns r"
        and grow: "\<And>x. revert_foreign_tables r x \<subseteq> revert_foreign_tables r' x"
        and mem: "column_name col \<in> revert_foreign_tables r' self"
        by (auto simp: r'_def nt2)
      have same: "\<And>tn' t'. h' tn' = Some t' \<Longrightarrow>
          \<exists>t0. h2 tn' = Some t0 \<and> name t0 = name t' \<and> columns t0 = columns t'"
        using r(2) r'_eq by (auto simp: h'' split: if_splits)
      have same': "\<And>tn' t0. h2 tn' = Some t0 \<Longrightarrow>
          \<exists>t'. h' tn' = Some t' \<and> name t0 = name t' \<and> columns t0 = columns t'"
        using r(2) r'_eq by (auto simp: h'')
      have "heap_ok h'"
        unfolding heap_ok_def
      proof (intro allI impI)
        fix tn' t' assume "h' tn' = Some t'"
        from same [OF this] obtain t0 where "h2 tn' = Some t0" "name t0 = name t'"
          "columns t0 = columns t'" by blast
        with hok2 show "name t' = tn' \<and> distinct (map fst (columns t'))
            \<and> (\<forall>cn c. map_of (columns t') cn = Some c \<longrightarrow> column_name c = cn \<and> table_name c = tn')"
          unfolding heap_ok_def by metis
      qed
      moreover have "memo_ok h' mm'"
        unfolding memo_ok_def
      proof (intro allI impI)
        fix tn' cn' y assume "((tn', cn'), y) \<in> set (is_foreign_key_cache mm')"
        from memo' [OF this] obtain t0 c' where "h2 tn' = Some t0"
          "map_of (columns t0) cn' = Some c'" "y = is_foreign_key c'" by blast
        with same' [of tn' t0]
        show "\<exists>t c. h' tn' = Some t \<and> map_of (columns t) cn' = Some c \<and> y = is_foreign_key c"
          by auto
      qed
      moreover have "edges_ok h'"
        unfolding edges_ok_edge_ok
      proof (intro allI impI)
        fix tn' t' cn' c
        assume a: "h' tn' = Some t'" "map_of (columns t') cn' = Some c" "is_foreign_key c"
        from same [OF a(1)] obtain t0 where t0: "h2 tn' = Some t0" "name t0 = name t'"
          "columns t0 = columns t'" by blast
        show "edge_ok h' (name t') c"
        proof (cases "(tn', cn') = (self, cn)")
          case True
          with t0 a new_entry have "c = col" "name t' = self"
            using nt2 by auto
          with r(1) mem show ?thesis
            by (auto simp: edge_ok_def h'')
        next
          case False
          from edges2 [OF t0(1) _ a(3) False] a(2) t0
          have "edge_ok h2 (name t') c" by simp
          then show ?thesis
            unfolding h'' using r(2) grow by (rule edge_ok_upd)
        qed
      qed
      moreover have "dom h' = dom h"
        using t r(2) by (auto simp: h'' h2_def split: if_splits)
      ultimately show ?thesis by (simp add: introspection_ok_def)
    qed
    then show "introspection_ok (h', mm')" and "dom h' = dom h" by simp_all
  qed
qed


lemma append_column_foreign_key_stored:
  assumes "append_column cfg self cn dt pos ctab (Some FOREIGN_KEY) (h, mm) = Inr (h', mm')"
  shows "\<exists>t' c. h' self = Some t' \<and> map_of (columns t') cn = Some c
           \<and> is_foreign_key c \<and> constraint_table c = ctab"
proof -
  from assms obtain t where t: "h self = Some t"
    by (auto simp: append_column_def split: option.splits)
  with assms obtain col t1 mm1 t2 mm2 where
    store: "append_column_store t cn dt pos ctab (Some FOREIGN_KEY) mm = Inr (col, t1, mm1)"
    and key: "append_column_key cfg col t1 mm1 = (t2, mm2)"
    and link: "append_column_link col t2 (h(self \<mapsto> t2)) mm2 = Inr (h', mm')"
    by (auto simp: append_column_def try_bind_def split: sum.splits prod.splits)
  from store have col: "is_foreign_key col" "constraint_table col = ctab"
    and t1: "map_of (columns t1) cn = Some col"
    by (auto simp: append_column_store_def DBColumn_init_def try_bind_def Let_def is_foreign_key_def
        constraint_given_def update_conv' split: option.splits if_splits)
  from append_column_key_eq(1) [OF key] t1 have t2: "map_of (columns t2) cn = Some col"
    by simp
  from append_column_link_Inr [OF link] t2
  have "\<exists>t'. h' self = Some t' \<and> map_of (columns t') cn = Some col"
    by (auto split: if_splits)
  with col show ?thesis by blast
qed

lemma append_column_absent_referent:
  assumes ok: "introspection_ok (h, mm)"
  shows "isl (append_column cfg self cn dt pos None (Some FOREIGN_KEY) (h, mm))"
proof (rule ccontr)
  assume "\<not> isl (append_column cfg self cn dt pos None (Some FOREIGN_KEY) (h, mm))"
  then obtain h' mm' where
    run: "append_column cfg self cn dt pos None (Some FOREIGN_KEY) (h, mm) = Inr (h', mm')"
    by (cases "append_column cfg self cn dt pos None (Some FOREIGN_KEY) (h, mm)") auto
  from append_column_preserves(1) [OF ok run] have "edges_ok h'"
    by (simp add: introspection_ok_def)
  moreover from append_column_foreign_key_stored [OF run] obtain t' c where
    "h' self = Some t'" "map_of (columns t') cn = Some c" "is_foreign_key c"
    "constraint_table c = None"
    by blast
  ultimately show False
    unfolding edges_ok_def by fastforce
qed

definition absent_referent :: "heap \<Rightarrow> column_row \<Rightarrow> bool" where
  "absent_referent h r =
     (case r of (tn, cn, dt, pos, ctn, ct) \<Rightarrow> ct = Some FOREIGN_KEY \<and> tables_get h ctn = None)"

lemma tables_get_dom: "dom h' = dom h \<Longrightarrow> tables_get h' ctn = tables_get h ctn"
  by (auto simp: tables_get_def split: option.splits)

lemma absent_referent_dom: "dom h' = dom h \<Longrightarrow> absent_referent h' r = absent_referent h r"
  using tables_get_dom [of h' h] by (simp add: absent_referent_def split: prod.splits)

lemma append_columns_preserves:
  "introspection_ok s \<Longrightarrow> append_columns cfg rows s = Inr s'
     \<Longrightarrow> introspection_ok s' \<and> dom (fst s') = dom (fst s)"
proof (induction rows arbitrary: s)
  case Nil
  then show ?case by simp
next
  case (Cons r rows)
  obtain tn cn dt pos ctn ct where r: "r = (tn, cn, dt, pos, ctn, ct)"
    by (cases r)
  obtain h mm where s: "s = (h, mm)" by (cases s)
  from Cons.prems(2) r s obtain h1 mm1 where
    one: "append_column cfg tn cn dt pos (tables_get h ctn) ct (h, mm) = Inr (h1, mm1)"
    and rest: "append_columns cfg rows (h1, mm1) = Inr s'"
    by (auto simp: try_bind_def split: sum.splits)
  from append_column_preserves [OF _ one] Cons.prems(1) s
  have "introspection_ok (h1, mm1)" "dom h1 = dom h" by simp_all
  with Cons.IH [OF _ rest] s show ?case by simp
qed

lemma append_columns_absent_referent:
  "introspection_ok s \<Longrightarrow> \<exists>r \<in> set rows. absent_referent (fst s) r
     \<Longrightarrow> isl (append_columns cfg rows s)"
proof (induction rows arbitrary: s)
  case Nil
  then show ?case by simp
next
  case (Cons r rows)
  obtain tn cn dt pos ctn ct where r: "r = (tn, cn, dt, pos, ctn, ct)"
    by (cases r)
  obtain h mm where s: "s = (h, mm)" by (cases s)
  show ?case
  proof (cases "append_column cfg tn cn dt pos (tables_get h ctn) ct (h, mm)")
    case (Inl e)
    with r s show ?thesis by (simp add: try_bind_def)
  next
    case (Inr s1)
    obtain h1 mm1 where s1: "s1 = (h1, mm1)" by (cases s1)
    from append_column_preserves [OF _ Inr [unfolded s1]] Cons.prems(1) s
    have ok1: "introspection_ok (h1, mm1)" and dom1: "dom h1 = dom h" by simp_all
    have "\<not> absent_referent h r"
    proof
      assume "absent_referent h r"
      with r have "ct = Some FOREIGN_KEY" "tables_get h ctn = None"
        by (simp_all add: absent_referent_def)
      with append_column_absent_referent [of h mm cfg tn cn dt pos] Cons.prems(1) s Inr
      show False by simp
    qed
    with Cons.prems(2) s have "\<exists>r \<in> set rows. absent_referent h r" by auto
    with absent_referent_dom [OF dom1] have "\<exists>r \<in> set rows. absent_referent (fst (h1, mm1)) r"
      by simp
    from Cons.IH [OF ok1 this] Inr r s s1 show ?thesis
      by (simp add: try_bind_def)
  qed
qed

lemma prepare_chunk_tables_preserves:
  assumes "introspection_ok s" and "prepare_chunk_tables cfg records s = Inr s'"
  shows "introspection_ok s' \<and> dom (fst s') = dom (fst s)"
proof -
  from assms(2) have "append_columns cfg (filter (row_kept cfg) records) s = Inr s'"
    by (simp add: prepare_chunk_tables_def Let_def split: if_splits)
  with assms(1) show ?thesis by (rule append_columns_preserves)
qed

lemma prepare_chunk_tables_absent_referent:
  assumes "introspection_ok s"
    and "\<exists>r \<in> set records. row_kept cfg r \<and> absent_referent (fst s) r"
  shows "isl (prepare_chunk_tables cfg records s)"
proof -
  from assms(2) obtain r where r: "r \<in> set records" "row_kept cfg r" "absent_referent (fst s) r"
    by blast
  from r(1,2) have "r \<in> set (filter (row_kept cfg) records)" by simp
  with r(3) have "\<exists>r \<in> set (filter (row_kept cfg) records). absent_referent (fst s) r"
    by blast
  with assms(1) have "isl (append_columns cfg (filter (row_kept cfg) records) s)"
    by (rule append_columns_absent_referent)
  then show ?thesis
    by (simp add: prepare_chunk_tables_def Let_def)
qed

lemma prepare_chunks_preserves:
  "introspection_ok s \<Longrightarrow> prepare_chunks cfg batches s = Inr s'
     \<Longrightarrow> introspection_ok s' \<and> dom (fst s') = dom (fst s)"
proof (induction batches arbitrary: s)
  case Nil
  then show ?case by simp
next
  case (Cons records batches)
  from Cons.prems(2) obtain s1 where one: "prepare_chunk_tables cfg records s = Inr s1"
    and rest: "prepare_chunks cfg batches s1 = Inr s'"
    by (auto simp: try_bind_def split: sum.splits)
  from prepare_chunk_tables_preserves [OF Cons.prems(1) one] Cons.IH [OF _ rest]
  show ?case by simp
qed

lemma prepare_chunks_absent_referent:
  "introspection_ok s
     \<Longrightarrow> \<exists>records \<in> set batches. \<exists>r \<in> set records. row_kept cfg r \<and> absent_referent (fst s) r
     \<Longrightarrow> isl (prepare_chunks cfg batches s)"
proof (induction batches arbitrary: s)
  case Nil
  then show ?case by simp
next
  case (Cons records batches)
  show ?case
  proof (cases "prepare_chunk_tables cfg records s")
    case (Inl e)
    then show ?thesis by (simp add: try_bind_def)
  next
    case (Inr s1)
    from prepare_chunk_tables_preserves [OF Cons.prems(1) Inr]
    have ok1: "introspection_ok s1" and dom1: "dom (fst s1) = dom (fst s)" by simp_all
    from prepare_chunk_tables_absent_referent [OF Cons.prems(1), of records cfg] Inr
    have "\<not> (\<exists>r \<in> set records. row_kept cfg r \<and> absent_referent (fst s) r)" by auto
    with Cons.prems(2)
    have "\<exists>records \<in> set batches. \<exists>r \<in> set records. row_kept cfg r \<and> absent_referent (fst s) r"
      by auto
    with absent_referent_dom [OF dom1]
    have "\<exists>records \<in> set batches. \<exists>r \<in> set records. row_kept cfg r \<and> absent_referent (fst s1) r"
      by simp
    from Cons.IH [OF ok1 this] Inr show ?thesis by (simp add: try_bind_def)
  qed
qed

text \<open>The fresh tables.\<close>

lemma create_tables_ok:
  assumes "create_tables ns h w = (h', w')"
    and "\<forall>tn t. h tn = Some t \<longrightarrow> name t = tn \<and> columns t = []"
  shows "(\<forall>tn t. h' tn = Some t \<longrightarrow> name t = tn \<and> columns t = []) \<and> dom h' = dom h \<union> set ns"
  using assms
proof (induction ns arbitrary: h w)
  case Nil
  then show ?case by simp
next
  case (Cons n ns)
  obtain t w1 where init: "DBTable_init n w = (t, w1)" by (cases "DBTable_init n w")
  then have t: "name t = n" "columns t = []"
    by (auto simp: DBTable_init_def split: prod.splits)
  from Cons.prems(1) init have rest: "create_tables ns (h(n \<mapsto> t)) w1 = (h', w')" by simp
  from Cons.prems(2) t
  have "\<forall>tn t'. (h(n \<mapsto> t)) tn = Some t' \<longrightarrow> name t' = tn \<and> columns t' = []" by auto
  from Cons.IH [OF rest this] show ?case by auto
qed

lemma fresh_introspection_ok:
  assumes "\<forall>tn t. h tn = Some t \<longrightarrow> name t = tn \<and> columns t = []"
  shows "introspection_ok (h, \<lparr>is_foreign_key_cache = [], is_key_column_cache = []\<rparr>)"
  using assms
  by (auto simp: introspection_ok_def heap_ok_def memo_ok_def edges_ok_def)

lemma prepare_tables_Inr:
  assumes "prepare_tables cfg ns batches w = Inr ((h, mm), w')"
  shows "introspection_ok (h, mm)" and "dom h = set ns"
proof -
  obtain h0 w0 where c: "create_tables ns Map.empty w = (h0, w0)"
    by (cases "create_tables ns Map.empty w")
  from create_tables_ok [OF c]
  have fresh: "\<forall>tn t. h0 tn = Some t \<longrightarrow> name t = tn \<and> columns t = []" and dom0: "dom h0 = set ns"
    by simp_all
  from assms c
  have run: "prepare_chunks cfg batches (h0, \<lparr>is_foreign_key_cache = [], is_key_column_cache = []\<rparr>)
               = Inr (h, mm)"
    by (auto simp: prepare_tables_def try_bind_def split: prod.splits option.splits sum.splits)
  from prepare_chunks_preserves [OF fresh_introspection_ok [OF fresh] run] dom0
  show "introspection_ok (h, mm)" and "dom h = set ns" by simp_all
qed

lemma prepare_tables_absent_referent:
  assumes "\<exists>records \<in> set batches. \<exists>(tn, cn, dt, pos, ctn, ct) \<in> set records.
             row_kept cfg (tn, cn, dt, pos, ctn, ct) \<and> ct = Some FOREIGN_KEY
             \<and> (case ctn of None \<Rightarrow> True | Some n \<Rightarrow> n \<notin> set ns)"
  shows "isl (prepare_tables cfg ns batches w)"
proof -
  obtain h0 w0 where c: "create_tables ns Map.empty w = (h0, w0)"
    by (cases "create_tables ns Map.empty w")
  from create_tables_ok [OF c]
  have fresh: "\<forall>tn t. h0 tn = Some t \<longrightarrow> name t = tn \<and> columns t = []" and dom0: "dom h0 = set ns"
    by simp_all
  let ?s0 = "(h0, \<lparr>is_foreign_key_cache = [], is_key_column_cache = []\<rparr>)"
  from assms dom0
  have "\<exists>records \<in> set batches. \<exists>r \<in> set records. row_kept cfg r \<and> absent_referent (fst ?s0) r"
    by (fastforce simp: absent_referent_def tables_get_def split: option.splits)
  from prepare_chunks_absent_referent [OF fresh_introspection_ok [OF fresh] this]
  have "isl (prepare_chunks cfg batches ?s0)" .
  with c show ?thesis
    by (auto simp: prepare_tables_def try_bind_def split: prod.splits option.splits sum.splits)
qed

text \<open>
  Claim C4: when introspection has completed without error, every
  foreign-key column of every table has a referent table and is a member of
  the referent's \<open>revert_foreign_tables\<close> under its own table; and appending
  a foreign-key column whose referent table is absent raises instead of
  establishing the edge, for a single \<open>append_column\<close> on the schema reached
  as well as for any such row among those fetched during introspection.
\<close>

theorem C4_foreign_key_edges:
  "(prepare_tables cfg ns batches w = Inr ((h, mm), w') \<longrightarrow>
      fk_edges_ok h
      \<and> isl (append_column cfg self cn dt pos None (Some FOREIGN_KEY) (h, mm)))
   \<and> ((\<exists>records \<in> set batches. \<exists>(tn, cn, dt, pos, ctn, ct) \<in> set records.
          row_kept cfg (tn, cn, dt, pos, ctn, ct) \<and> ct = Some FOREIGN_KEY
          \<and> (case ctn of None \<Rightarrow> True | Some n \<Rightarrow> n \<notin> set ns)) \<longrightarrow>
       isl (prepare_tables cfg ns batches w))"
proof (intro conjI impI)
  assume run: "prepare_tables cfg ns batches w = Inr ((h, mm), w')"
  from prepare_tables_Inr(1) [OF run] have ok: "introspection_ok (h, mm)" .
  then show "fk_edges_ok h"
    by (simp add: introspection_ok_def edges_ok_fk_edges_ok)
  from ok show "isl (append_column cfg self cn dt pos None (Some FOREIGN_KEY) (h, mm))"
    by (rule append_column_absent_referent)
next
  assume "\<exists>records \<in> set batches. \<exists>(tn, cn, dt, pos, ctn, ct) \<in> set records.
          row_kept cfg (tn, cn, dt, pos, ctn, ct) \<and> ct = Some FOREIGN_KEY
          \<and> (case ctn of None \<Rightarrow> True | Some n \<Rightarrow> n \<notin> set ns)"
  then show "isl (prepare_tables cfg ns batches w)"
    by (rule prepare_tables_absent_referent)
qed


definition example_rows :: "column_row list" where
  "example_rows =
     [(''doc'', ''id'', ''integer'', 1, Some ''doc'', Some PRIMARY_KEY),
      (''doc'', ''ent_id'', ''integer'', 2, Some ''ent'', Some FOREIGN_KEY),
      (''doc'', ''parent'', ''integer'', 3, Some ''doc'', Some FOREIGN_KEY),
      (''ent'', ''id'', ''integer'', 1, Some ''ent'', Some PRIMARY_KEY)]"

theorem C4_foreign_key_edges_witness:
  "(\<exists>h mm w'. prepare_tables example_settings [''doc'', ''ent''] [example_rows] example_stores
                 = Inr ((h, mm), w')
       \<and> fk_edges_ok h
       \<and> isl (append_column example_settings ''doc'' ''owner'' ''integer'' 4 None
                (Some FOREIGN_KEY) (h, mm)))
   \<and> row_kept example_settings (''doc'', ''owner'', ''integer'', 4, Some ''gone'', Some FOREIGN_KEY)
   \<and> ''gone'' \<notin> set [''doc'', ''ent'']
   \<and> isl (prepare_tables example_settings [''doc'', ''ent'']
            [example_rows, [(''doc'', ''owner'', ''integer'', 4, Some ''gone'', Some FOREIGN_KEY)]]
            example_stores)"
proof -
  have "\<not> isl (prepare_tables example_settings [''doc'', ''ent''] [example_rows] example_stores)"
    by code_simp
  then obtain h mm w' where
    run: "prepare_tables example_settings [''doc'', ''ent''] [example_rows] example_stores
            = Inr ((h, mm), w')"
    by (cases "prepare_tables example_settings [''doc'', ''ent''] [example_rows] example_stores")
      auto
  have kept: "row_kept example_settings
      (''doc'', ''owner'', ''integer'', 4, Some ''gone'', Some FOREIGN_KEY)"
    by (simp add: row_kept_def example_settings_def)
  have bad: "\<exists>records \<in> set [example_rows,
               [(''doc'', ''owner'', ''integer'', 4, Some ''gone'', Some FOREIGN_KEY)]].
             \<exists>(tn, cn, dt, pos, ctn, ct) \<in> set records.
               row_kept example_settings (tn, cn, dt, pos, ctn, ct) \<and> ct = Some FOREIGN_KEY
               \<and> (case ctn of None \<Rightarrow> True | Some n \<Rightarrow> n \<notin> set [''doc'', ''ent''])"
    using kept by simp
  from C4_foreign_key_edges [where cfg = example_settings and ns = "[''doc'', ''ent'']"
      and batches = "[example_rows]" and w = example_stores and h = h and mm = mm and w' = w'
      and self = "''doc''" and cn = "''owner''" and dt = "''integer''" and pos = 4] run
  have "fk_edges_ok h \<and> isl (append_column example_settings ''doc'' ''owner'' ''integer'' 4 None
                (Some FOREIGN_KEY) (h, mm))"
    by blast
  moreover from C4_foreign_key_edges [where cfg = example_settings and ns = "[''doc'', ''ent'']"
      and batches = "[example_rows,
               [(''doc'', ''owner'', ''integer'', 4, Some ''gone'', Some FOREIGN_KEY)]]"
      and w = example_stores] bad
  have "isl (prepare_tables example_settings [''doc'', ''ent'']
            [example_rows, [(''doc'', ''owner'', ''integer'', 4, Some ''gone'', Some FOREIGN_KEY)]]
            example_stores)"
    by blast
  ultimately show ?thesis using run kept by auto
qed

section \<open>The highest-priority foreign-key columns\<close>

text \<open>
  The selection as the specification words it, on sets of columns:
  \<open>to_key_table\<close> holds for a column whose referent has a key column,
  \<open>via_key_table\<close> for a column whose referent has a non-self foreign key to
  a table with a key column, and \<open>first_non_empty\<close> picks the first set that
  is not empty (the last one stands if all are empty).
  \<open>referents_resolve\<close> says that the referents the property follows exist:
  those of the table's non-self foreign keys and of the non-self foreign keys
  of these referents. It holds for the tables of a schema whose foreign-key
  columns all have their referent in the schema.
\<close>

fun first_non_empty :: "'a set list \<Rightarrow> 'a set" where
  "first_non_empty [] = {}"
| "first_non_empty (s # ss) = (if s \<noteq> {} then s else first_non_empty ss)"

definition to_key_table :: "heap \<Rightarrow> DBColumn \<Rightarrow> bool" where
  "to_key_table h c =
     (case constraint_table c of
        None \<Rightarrow> False
      | Some rn \<Rightarrow> (case h rn of None \<Rightarrow> False | Some r \<Rightarrow> with_key_column r))"

definition non_self_fk :: "DBTable \<Rightarrow> DBColumn set" where
  "non_self_fk t = {c \<in> set (values_of t). is_foreign_key c \<and> \<not> is_self_fk c}"

definition via_key_table :: "heap \<Rightarrow> DBColumn \<Rightarrow> bool" where
  "via_key_table h c =
     (case constraint_table c of
        None \<Rightarrow> False
      | Some rn \<Rightarrow>
          (case h rn of
             None \<Rightarrow> False
           | Some r \<Rightarrow> (\<exists>cc \<in> non_self_fk r. to_key_table h cc)))"

definition highest_priority_spec :: "heap \<Rightarrow> DBTable \<Rightarrow> DBColumn set" where
  "highest_priority_spec h t =
     first_non_empty
       [{c \<in> non_self_fk t. is_unique c \<and> to_key_table h c},
        {c \<in> non_self_fk t. is_unique c \<and> via_key_table h c}
          \<union> {c \<in> non_self_fk t. to_key_table h c},
        {c \<in> non_self_fk t. via_key_table h c},
        non_self_fk t]"

definition referents_resolve :: "heap \<Rightarrow> DBTable \<Rightarrow> bool" where
  "referents_resolve h t =
     (\<forall>c \<in> set (not_self_fk_columns t).
        (case referent h c of
           Inl e \<Rightarrow> False
         | Inr r \<Rightarrow> (\<forall>cc \<in> set (not_self_fk_columns r). \<not> isl (referent h cc))))"

lemma try_filter_Inr:
  "(\<And>x. x \<in> set xs \<Longrightarrow> p x = Inr (q x)) \<Longrightarrow> try_filter p xs = Inr (filter q xs)"
  by (induction xs) (simp_all add: try_bind_def)

lemma try_map_Inr:
  "(\<And>x. x \<in> set xs \<Longrightarrow> f x = Inr (g x)) \<Longrightarrow> try_map f xs = Inr (map g xs)"
  by (induction xs) (simp_all add: try_bind_def)

lemma set_not_self_fk_columns: "set (not_self_fk_columns t) = non_self_fk t"
  by (auto simp: not_self_fk_columns_def non_self_fk_def)

lemma set_unique_fk_columns: "set (unique_fk_columns t) = {c \<in> non_self_fk t. is_unique c}"
  by (auto simp: unique_fk_columns_def set_not_self_fk_columns non_self_fk_def)

lemma referent_with_key_column_Inr:
  "referent h c = Inr r \<Longrightarrow> referent_with_key_column h c = Inr (to_key_table h c)"
  by (auto simp: referent_with_key_column_def referent_def to_key_table_def try_bind_def
      split: option.splits)

lemma not_isl_referent: "\<not> isl (referent h c) \<Longrightarrow> \<exists>r. referent h c = Inr r"
  by (cases "referent h c") auto

lemma referents_resolveD:
  assumes "referents_resolve h t" and "c \<in> non_self_fk t"
  shows "\<exists>r. referent h c = Inr r \<and> (\<forall>cc \<in> non_self_fk r. \<exists>q. referent h cc = Inr q)"
proof (cases "referent h c")
  case (Inl e)
  with assms show ?thesis
    by (auto simp: referents_resolve_def set_not_self_fk_columns)
next
  case (Inr r)
  with assms have "\<forall>cc \<in> non_self_fk r. \<not> isl (referent h cc)"
    by (auto simp: referents_resolve_def set_not_self_fk_columns)
  with Inr show ?thesis by (blast dest: not_isl_referent)
qed

lemma fk_columns_with_key_column_Inr:
  assumes "referents_resolve h t"
  shows "fk_columns_with_key_column h t = Inr (filter (to_key_table h) (not_self_fk_columns t))"
  unfolding fk_columns_with_key_column_def
proof (rule try_filter_Inr)
  fix c assume "c \<in> set (not_self_fk_columns t)"
  then have "c \<in> non_self_fk t" by (simp add: set_not_self_fk_columns)
  with referents_resolveD [OF assms] obtain r where "referent h c = Inr r" by blast
  then show "referent_with_key_column h c = Inr (to_key_table h c)"
    by (rule referent_with_key_column_Inr)
qed

lemma two_hop_Inr:
  assumes "referents_resolve h t" and "c \<in> non_self_fk t"
  shows "\<exists>n. two_hop h c = Inr (replicate n c) \<and> (0 < n \<longleftrightarrow> via_key_table h c)"
proof -
  from referents_resolveD [OF assms] obtain r where r: "referent h c = Inr r"
    and rr: "\<And>cc. cc \<in> non_self_fk r \<Longrightarrow> \<exists>q. referent h cc = Inr q"
    by blast
  have "try_filter (referent_with_key_column h) (not_self_fk_columns r)
          = Inr (filter (to_key_table h) (not_self_fk_columns r))"
  proof (rule try_filter_Inr)
    fix cc assume "cc \<in> set (not_self_fk_columns r)"
    with rr obtain q where "referent h cc = Inr q"
      by (auto simp: set_not_self_fk_columns)
    then show "referent_with_key_column h cc = Inr (to_key_table h cc)"
      by (rule referent_with_key_column_Inr)
  qed
  with r have "two_hop h c
      = Inr (replicate (length (filter (to_key_table h) (not_self_fk_columns r))) c)"
    by (simp add: two_hop_def try_bind_def map_replicate_const)
  moreover from r have "via_key_table h c \<longleftrightarrow> (\<exists>cc \<in> non_self_fk r. to_key_table h cc)"
    by (auto simp: via_key_table_def referent_def split: option.splits)
  then have "0 < length (filter (to_key_table h) (not_self_fk_columns r)) \<longleftrightarrow> via_key_table h c"
    by (auto simp: set_not_self_fk_columns [symmetric] filter_empty_conv)
  ultimately show ?thesis by blast
qed

lemma two_hops_Inr:
  assumes "referents_resolve h t" and "set xs \<subseteq> non_self_fk t"
  shows "\<exists>ys. try_bind (try_map (two_hop h) xs) (\<lambda>xss. Inr (concat xss)) = Inr ys
           \<and> set ys = {c \<in> set xs. via_key_table h c}"
  using assms(2)
proof (induction xs)
  case Nil
  show ?case by (simp add: try_bind_def)
next
  case (Cons c xs)
  then obtain ys where ys: "try_bind (try_map (two_hop h) xs) (\<lambda>xss. Inr (concat xss)) = Inr ys"
    "set ys = {c \<in> set xs. via_key_table h c}"
    by auto
  from Cons.prems have "c \<in> non_self_fk t" by simp
  from two_hop_Inr [OF assms(1) this] obtain n where
    n: "two_hop h c = Inr (replicate n c)" "0 < n \<longleftrightarrow> via_key_table h c"
    by blast
  from ys(1) obtain xss where xss: "try_map (two_hop h) xs = Inr xss" "ys = concat xss"
    by (auto simp: try_bind_def split: sum.splits)
  from n(1) xss have "try_bind (try_map (two_hop h) (c # xs)) (\<lambda>xss. Inr (concat xss))
      = Inr (replicate n c @ ys)"
    by (simp add: try_bind_def)
  moreover from n(2) ys(2) have "set (replicate n c @ ys) = {c' \<in> set (c # xs). via_key_table h c'}"
    by (cases "n = 0") auto
  ultimately show ?case by blast
qed

text \<open>
  Claim C3: \<open>highest_priority_fk_columns\<close> is the first non-empty of
  (1) the unique foreign-key columns to tables with a key column,
  (2) the unique foreign-key columns whose referent has a foreign key to such
  a table together with the foreign-key columns to tables with a key column,
  (3) the foreign-key columns whose referent has a foreign key to a table with
  a key column, and (4) all non-self foreign-key columns.
\<close>

theorem C3_highest_priority_fk_columns:
  assumes "referents_resolve h t"
  shows "\<exists>fk_columns. highest_priority_fk_columns h t = Inr fk_columns
           \<and> set fk_columns = highest_priority_spec h t"
proof -
  define direct where "direct = filter (to_key_table h) (not_self_fk_columns t)"
  define unique_direct where
    "unique_direct = filter (\<lambda>c. c \<in> set direct) (remdups (unique_fk_columns t))"
  define others where "others = not_self_fk_columns t"
  have d: "fk_columns_with_key_column h t = Inr direct"
    unfolding direct_def using assms by (rule fk_columns_with_key_column_Inr)
  have sd: "{c \<in> non_self_fk t. to_key_table h c} = set direct"
    by (auto simp: direct_def set_not_self_fk_columns [symmetric])
  have ud: "unique_fk_columns_with_key_column h t = Inr unique_direct"
    by (simp add: unique_fk_columns_with_key_column_def d try_bind_def unique_direct_def)
  have sud: "{c \<in> non_self_fk t. is_unique c \<and> to_key_table h c} = set unique_direct"
    using sd by (auto simp: unique_direct_def set_unique_fk_columns)
  from two_hops_Inr [OF assms, of "unique_fk_columns t"] obtain unique_two_hop where
    u2: "unique_fk_columns_tables_with_fk_columns_with_key_column h t = Inr unique_two_hop"
    and su2: "{c \<in> non_self_fk t. is_unique c \<and> via_key_table h c} = set unique_two_hop"
    by (auto simp: unique_fk_columns_tables_with_fk_columns_with_key_column_def
        set_unique_fk_columns)
  from two_hops_Inr [OF assms, of "not_self_fk_columns t"] obtain two_hops where
    t2: "fk_columns_tables_with_fk_columns_with_key_column h t = Inr two_hops"
    and st2: "{c \<in> non_self_fk t. via_key_table h c} = set two_hops"
    by (auto simp: fk_columns_tables_with_fk_columns_with_key_column_def
        set_not_self_fk_columns)
  have so: "non_self_fk t = set others"
    by (simp add: others_def set_not_self_fk_columns)
  have spec: "highest_priority_spec h t
      = first_non_empty [set unique_direct, set unique_two_hop \<union> set direct, set two_hops,
          set others]"
    unfolding highest_priority_spec_def sud su2 sd st2 unfolding so ..
  have code: "highest_priority_fk_columns h t =
      (if unique_direct \<noteq> [] then Inr unique_direct
       else if unique_two_hop \<noteq> [] \<or> direct \<noteq> []
       then Inr ((if unique_two_hop \<noteq> [] then unique_two_hop else [])
                  @ (if direct \<noteq> [] then direct else []))
       else if two_hops \<noteq> [] then Inr two_hops else Inr others)"
    by (simp add: highest_priority_fk_columns_def ud u2 d t2 try_bind_def others_def)
  show ?thesis
    unfolding spec code by auto
qed


definition example_fk_column ::
  "string \<Rightarrow> string \<Rightarrow> string \<Rightarrow> ConstraintTypesEnum list \<Rightarrow> DBColumn" where
  "example_fk_column tn cn rn cts =
     \<lparr> column_name = cn, table_name = tn, data_type = ''integer'', ordinal_position = 1,
       constraint_table = Some rn, constraint_type = cts \<rparr>"

definition example_schema_table :: "string \<Rightarrow> DBColumn list \<Rightarrow> string option \<Rightarrow> DBTable" where
  "example_schema_table tn cs key =
     \<lparr> name = tn, full_count = 0, max_pk = 0, columns = map (\<lambda>c. (column_name c, c)) cs,
       is_ready_for_transferring = False, is_checked = False, key_column = key,
       revert_foreign_tables = (\<lambda>_. {}), need_transfer_pks = StorageList {||},
       transferred_pks_count = 0 \<rparr>"

text \<open>
  \<open>ent\<close> is the key table; \<open>doc\<close> references it; \<open>file\<close> references \<open>doc\<close>;
  \<open>page\<close> references \<open>file\<close> through a unique column and \<open>doc\<close> through a
  plain one, and itself through \<open>parent\<close>.
\<close>

definition example_page :: DBTable where
  "example_page =
     example_schema_table ''page''
       [example_fk_column ''page'' ''id'' ''page'' [PRIMARY_KEY],
        example_fk_column ''page'' ''file_id'' ''file'' [FOREIGN_KEY, UNIQUE],
        example_fk_column ''page'' ''doc_id'' ''doc'' [FOREIGN_KEY],
        example_fk_column ''page'' ''parent'' ''page'' [FOREIGN_KEY]] None"

definition example_heap :: heap where
  "example_heap =
     [''ent'' \<mapsto> example_schema_table ''ent''
                  [example_fk_column ''ent'' ''id'' ''ent'' [PRIMARY_KEY]] (Some ''id''),
      ''doc'' \<mapsto> example_schema_table ''doc''
                  [example_fk_column ''doc'' ''id'' ''doc'' [PRIMARY_KEY],
                   example_fk_column ''doc'' ''ent_id'' ''ent'' [FOREIGN_KEY]] (Some ''ent_id''),
      ''file'' \<mapsto> example_schema_table ''file''
                  [example_fk_column ''file'' ''id'' ''file'' [PRIMARY_KEY],
                   example_fk_column ''file'' ''doc_id'' ''doc'' [FOREIGN_KEY, UNIQUE]] None,
      ''page'' \<mapsto> example_page]"

theorem C3_highest_priority_fk_columns_witness:
  "referents_resolve example_heap example_page
   \<and> highest_priority_fk_columns example_heap example_page
       = Inr [example_fk_column ''page'' ''file_id'' ''file'' [FOREIGN_KEY, UNIQUE],
              example_fk_column ''page'' ''doc_id'' ''doc'' [FOREIGN_KEY]]
   \<and> highest_priority_spec example_heap example_page
       = {example_fk_column ''page'' ''file_id'' ''file'' [FOREIGN_KEY, UNIQUE],
          example_fk_column ''page'' ''doc_id'' ''doc'' [FOREIGN_KEY]}"
proof -
  have resolve: "referents_resolve example_heap example_page"
    by code_simp
  have result: "highest_priority_fk_columns example_heap example_page
       = Inr [example_fk_column ''page'' ''file_id'' ''file'' [FOREIGN_KEY, UNIQUE],
              example_fk_column ''page'' ''doc_id'' ''doc'' [FOREIGN_KEY]]"
    by code_simp
  from C3_highest_priority_fk_columns [OF resolve] result resolve
  show ?thesis by auto
qed

end
